theory Spec2Isabelle
  imports Complex_Main "HOL-Library.AList"
begin

section \<open>The vaults v2 registry and the vault snapshot of yearn/vaults_v2.py\<close>

text \<open>
  The module keeps a registry of vaults that it rebuilds from the event log of the registry
  contract (\<open>Registry\<close>), and reports the numeric views of one vault (\<open>VaultV2.describe\<close>).
  Everything the module reaches through brownie, web3 and its sibling modules is a field of
  the record \<open>env\<close>; a call that goes to the chain or to an explorer returns
  \<open>error + 'a\<close>, with \<open>Inl\<close> for the exception it raises.
\<close>

subsection \<open>Exceptions\<close>

text \<open>
  \<open>UnknownEvent\<close> is the exception of yearn.events that \<open>process_events\<close> raises itself.
  \<open>KeyError\<close> and \<open>IndexError\<close> are what a Python dict and list raise on a missing key
  and on an index out of range, \<open>EventLookupError\<close> is what a brownie event raises when it is
  asked for a field it does not have, \<open>OverflowError\<close> is what \<open>int / int\<close> raises when
  the quotient is beyond the floats, \<open>TypeError\<close> what an operator raises on operands it
  has no meaning for. \<open>ValueError\<close> stands for every exception that the clause
  \<open>except ValueError\<close> matches, and \<open>OtherError\<close> for every exception of a collaborator
  that is none of the above (a connection error, say); the string is its message.
\<close>

datatype error =
    UnknownEvent string
  | KeyError string
  | IndexError
  | EventLookupError string
  | ValueError string
  | OverflowError
  | TypeError
  | OtherError string

subsection \<open>Contracts, events and logs\<close>

type_synonym address = string

text \<open>One entry of a contract ABI, with the keys that \<open>__post_init__\<close> reads.\<close>

record abi_entry =
  entry_type :: string
  entry_name :: string
  stateMutability :: string
  inputs :: "string list"
  outputs :: "string list"

text \<open>A brownie contract handle: the name it was built with, its address and its ABI.\<close>

record contract =
  contract_name :: string
  contract_address :: address
  abi :: "abi_entry list"

text \<open>\<open>Contract.from_abi(name, address, abi)\<close> builds a handle without any call.\<close>

definition from_abi :: "string \<Rightarrow> address \<Rightarrow> abi_entry list \<Rightarrow> contract" where
  "from_abi n a b = \<lparr>contract_name = n, contract_address = a, abi = b\<rparr>"

text \<open>
  A decoded event: \<open>evt.name\<close>, \<open>evt.block_number\<close> and the fields read as
  \<open>evt['vault']\<close>. All field values of the registry's events are strings (addresses,
  version strings, tags).
\<close>

record event =
  name :: string
  block_number :: int
  args :: "string \<rightharpoonup> string"

definition getitem :: "event \<Rightarrow> string \<Rightarrow> error + string" where
  "getitem evt k = (case args evt k of None \<Rightarrow> Inl (EventLookupError k) | Some v \<Rightarrow> Inr v)"

text \<open>A raw log as the node returns it: the emitting contract, its block, its payload.\<close>

record log =
  log_address :: address
  log_block :: int
  log_data :: string

subsection \<open>Python floats\<close>

text \<open>
  A Python float is an IEEE 754 double. A finite double is represented by the rational it
  denotes (the two zeros are one value, as they are for \<open>==\<close>).
\<close>

datatype pyfloat = Finite rat | PosInf | NegInf | NaN

text \<open>
  \<open>bitlen n\<close> is the number of binary digits of a positive \<open>n\<close>, Python's
  \<open>n.bit_length()\<close>.
\<close>

function bitlen :: "int \<Rightarrow> int" where
  "bitlen n = (if n \<le> 0 then 0 else 1 + bitlen (n div 2))"
  by pat_completeness auto
termination
  by (relation "measure nat") auto

declare bitlen.simps [simp del]

definition pow2 :: "int \<Rightarrow> rat" where
  "pow2 e = (if 0 \<le> e then 2 ^ nat e else 1 / 2 ^ nat (- e))"

text \<open>
  \<open>floor_log2 n d\<close> is the integer part of the binary logarithm of \<open>n / d\<close>, for
  positive \<open>n\<close> and \<open>d\<close>.
\<close>

definition floor_log2 :: "int \<Rightarrow> int \<Rightarrow> int" where
  "floor_log2 n d =
     (let k = bitlen n - bitlen d
      in if d * 2 ^ nat k \<le> n * 2 ^ nat (- k) then k else k - 1)"

text \<open>
  \<open>round_div n d\<close> is \<open>n / d\<close> rounded to the nearest double, ties to the even
  significand, for positive \<open>n\<close> and \<open>d\<close>: the significand has 53 bits, the least exponent
  is that of the subnormal numbers. A result of \<open>2 ^ 1024\<close> or more is beyond the finite
  doubles.
\<close>

definition round_div :: "int \<Rightarrow> int \<Rightarrow> rat" where
  "round_div n d =
     (let e = max (floor_log2 n d - 52) (- 1074);
          N = n * 2 ^ nat (- e);
          D = d * 2 ^ nat e;
          q = N div D;
          r = N mod D;
          m = (if 2 * r < D then q else if D < 2 * r then q + 1
               else if even q then q else q + 1)
      in of_int m * pow2 e)"

definition round_rat :: "rat \<Rightarrow> pyfloat" where
  "round_rat x =
     (if x = 0 then Finite 0
      else let (n, d) = quotient_of x;
               y = round_div \<bar>n\<bar> d
           in if 2 ^ 1024 \<le> y then (if 0 < x then PosInf else NegInf)
              else Finite (if 0 < x then y else - y))"

text \<open>
  \<open>a / b\<close> on two Python ints: the correctly rounded quotient, ZeroDivisionError apart
  (the divisor of this module is a power of ten), OverflowError when it is not finite.
\<close>

definition truediv :: "int \<Rightarrow> int \<Rightarrow> error + pyfloat" where
  "truediv a b =
     (case round_rat (of_int a / of_int b) of
        Finite y \<Rightarrow> Inr (Finite y)
      | _ \<Rightarrow> Inl OverflowError)"

text \<open>\<open>x * y\<close> on two floats never raises: it overflows to an infinity.\<close>

fun fmul :: "pyfloat \<Rightarrow> pyfloat \<Rightarrow> pyfloat" where
  "fmul (Finite x) (Finite y) = round_rat (x * y)"
| "fmul NaN _ = NaN"
| "fmul _ NaN = NaN"
| "fmul (Finite x) PosInf = (if x = 0 then NaN else if 0 < x then PosInf else NegInf)"
| "fmul (Finite x) NegInf = (if x = 0 then NaN else if 0 < x then NegInf else PosInf)"
| "fmul PosInf (Finite y) = (if y = 0 then NaN else if 0 < y then PosInf else NegInf)"
| "fmul NegInf (Finite y) = (if y = 0 then NaN else if 0 < y then NegInf else PosInf)"
| "fmul PosInf PosInf = PosInf"
| "fmul PosInf NegInf = NegInf"
| "fmul NegInf PosInf = NegInf"
| "fmul NegInf NegInf = PosInf"

subsection \<open>The collaborators\<close>

text \<open>
  A strategy of yearn.strategies, as far as this module reads it: its name. What its
  \<open>describe()\<close> returns comes from the environment.
\<close>

record strategy =
  strategy_name :: string
  strategy_address :: address

text \<open>
  The values of the dict that \<open>describe\<close> returns: a raw view (an int), a scaled view,
  a price or a tvl (a float), a nested dict. A dict is an association list in insertion
  order; \<open>AList.update\<close> is \<open>d[k] = v\<close>.
\<close>

datatype pyval = PyInt int | PyFloat pyfloat | PyDict "(string \<times> pyval) list"

text \<open>
  \<^item> \<open>resolve\<close>: \<open>web3.ens.resolve(name)\<close>;
  \<^item> \<open>Contract\<close>: \<open>Contract(address)\<close>, which fetches the ABI of a deployed contract;
  \<^item> \<open>fetch_events\<close>: \<open>fetch_events(contract)\<close> of yearn.events, all decoded events of
    a contract in chain order;
  \<^item> \<open>get_logs\<close>: \<open>get_logs(address, from_block, to_block)\<close> of yearn.events;
  \<^item> \<open>decode_log\<close>: what \<open>decode_logs\<close> of yearn.events makes of one log (it decodes
    the logs one by one, in order);
  \<^item> \<open>new_blocks\<close> is not here: the blocks that \<open>chain.new_blocks\<close> yields are an
    argument of \<open>watch_events\<close>;
  \<^item> \<open>symbol\<close>, \<open>decimals\<close>, \<open>token\<close>: the calls \<open>vault.symbol()\<close>,
    \<open>vault.decimals()\<close>, \<open>vault.token()\<close>;
  \<^item> \<open>fetch_multicall\<close>: \<open>fetch_multicall\<close> of yearn.mutlicall on views whose output is
    a uint256, \<open>fetch_symbols\<close>: the same function on the \<open>symbol\<close> views, whose
    output is a string;
  \<^item> \<open>strategy_describe\<close>: \<open>strat.describe()\<close> of yearn.strategies;
  \<^item> \<open>token_price\<close>: \<open>uniswap.token_price(token)\<close>.
\<close>

record env =
  resolve :: "string \<Rightarrow> error + address"
  Contract :: "address \<Rightarrow> error + contract"
  fetch_events :: "contract \<Rightarrow> error + event list"
  get_logs :: "address \<Rightarrow> int \<Rightarrow> int \<Rightarrow> error + log list"
  decode_log :: "log \<Rightarrow> event"
  symbol :: "contract \<Rightarrow> error + string"
  decimals :: "contract \<Rightarrow> error + nat"
  token :: "contract \<Rightarrow> error + address"
  fetch_multicall :: "(contract \<times> string) list \<Rightarrow> error + int list"
  fetch_symbols :: "(contract \<times> string) list \<Rightarrow> error + string list"
  strategy_describe :: "strategy \<Rightarrow> error + pyval"
  token_price :: "address \<Rightarrow> error + pyfloat"

subsection \<open>Registry\<close>

text \<open>
  The attributes of a \<open>Registry\<close> object. \<open>last_block\<close> is \<open>None\<close> until
  \<open>__init__\<close> assigns it, after the historical events are applied.
\<close>

record registry =
  registry_contract :: contract
  governance :: "address option"
  api_versions :: "string \<rightharpoonup> contract"
  vaults :: "address \<rightharpoonup> contract"
  names :: "address \<rightharpoonup> string"
  endorsed :: "address \<rightharpoonup> bool"
  tags :: "address \<rightharpoonup> string"
  events :: "event list"
  last_block :: "int option"

text \<open>
  The body of the loop of \<open>process_events\<close>, for one event. The object is mutated in
  place, so an exception leaves it as it was when the exception was raised: the result is
  \<open>Inl (e, self')\<close> for an exception \<open>e\<close> raised in state \<open>self'\<close>, and \<open>Inr self'\<close>
  when the body ends (also by \<open>continue\<close>). Subexpressions are evaluated in Python's
  order: the right-hand side of an assignment before the subscript of its target, arguments
  from left to right.
\<close>

definition process_event :: "env \<Rightarrow> event \<Rightarrow> registry \<Rightarrow> error \<times> registry + registry" where
  "process_event env evt self =
     (if name evt = ''NewGovernance'' then
        (case getitem evt ''governance'' of
           Inl e \<Rightarrow> Inl (e, self)
         | Inr g \<Rightarrow> Inr (self\<lparr>governance := Some g\<rparr>))
      else if name evt = ''NewRelease'' then
        (case getitem evt ''template'' of
           Inl e \<Rightarrow> Inl (e, self)
         | Inr t \<Rightarrow>
        (case Contract env t of
           Inl e \<Rightarrow> Inl (e, self)
         | Inr c \<Rightarrow>
        (case getitem evt ''api_version'' of
           Inl e \<Rightarrow> Inl (e, self)
         | Inr v \<Rightarrow> Inr (self\<lparr>api_versions := (api_versions self)(v \<mapsto> c)\<rparr>))))
      else if name evt \<in> set [''NewVault'', ''NewExperimentalVault''] then
        (case getitem evt ''vault'' of
           Inl e \<Rightarrow> Inl (e, self)
         | Inr a \<Rightarrow>
        if vaults self a \<noteq> None then Inr self
        else
        (case getitem evt ''api_version'' of
           Inl e \<Rightarrow> Inl (e, self)
         | Inr v \<Rightarrow>
        (case api_versions self v of
           None \<Rightarrow> Inl (KeyError v, self)
         | Some template \<Rightarrow>
        (let vault = from_abi (''Vault v'' @ v) a (abi template);
             self1 = self\<lparr>vaults := (vaults self)(a \<mapsto> vault)\<rparr>
         in case symbol env vault of
              Inl e \<Rightarrow> Inl (e, self1)
            | Inr s \<Rightarrow> Inr (self1\<lparr>names := (names self1)(a \<mapsto> s @ '' '' @ v)\<rparr>)))))
      else if name evt = ''VaultTagged'' then
        (case getitem evt ''tag'' of
           Inl e \<Rightarrow> Inl (e, self)
         | Inr t \<Rightarrow>
        (case getitem evt ''vault'' of
           Inl e \<Rightarrow> Inl (e, self)
         | Inr a \<Rightarrow> Inr (self\<lparr>tags := (tags self)(a \<mapsto> t)\<rparr>)))
      else Inl (UnknownEvent (name evt), self))"

text \<open>\<open>process_events\<close>: the loop over the events, which an exception leaves.\<close>

fun process_events :: "env \<Rightarrow> event list \<Rightarrow> registry \<Rightarrow> error \<times> registry + registry" where
  "process_events env [] self = Inr self"
| "process_events env (evt # evts) self =
     (case process_event env evt self of
        Inl x \<Rightarrow> Inl x
      | Inr self' \<Rightarrow> process_events env evts self')"

text \<open>
  The attributes that \<open>__init__\<close> assigns before it applies the events: the registry
  contract \<open>r\<close>, empty dicts, and the historical events \<open>evts\<close>.
\<close>

definition new_registry :: "contract \<Rightarrow> event list \<Rightarrow> registry" where
  "new_registry r evts =
     \<lparr>registry_contract = r, governance = None, api_versions = Map.empty,
      vaults = Map.empty, names = Map.empty, endorsed = Map.empty,
      tags = Map.empty, events = evts, last_block = None\<rparr>"

text \<open>
  \<open>Registry.__init__\<close>, up to the start of the thread. An exception leaves the
  constructor, and the caller gets no object. \<open>self.events[-1]\<close> raises IndexError on an
  empty list.
\<close>

definition Registry_init :: "env \<Rightarrow> error + registry" where
  "Registry_init env =
     (case resolve env ''v2.registry.ychad.eth'' of
        Inl e \<Rightarrow> Inl e
      | Inr a \<Rightarrow>
     (case Contract env a of
        Inl e \<Rightarrow> Inl e
      | Inr r \<Rightarrow>
     (case fetch_events env r of
        Inl e \<Rightarrow> Inl e
      | Inr evts \<Rightarrow>
     (case process_events env evts (new_registry r evts) of
        Inl (e, _) \<Rightarrow> Inl e
      | Inr self \<Rightarrow>
          if evts = [] then Inl IndexError
          else Inr (self\<lparr>last_block := Some (block_number (last evts))\<rparr>)))))"

text \<open>
  Modelled from the spec: \<open>decode_logs\<close> of yearn.events, which is not in this module.
  The Event Source decodes a sequence of raw logs into the sequence of their events, in
  the same order; what one log decodes to comes from the environment.
\<close>

definition decode_logs :: "env \<Rightarrow> log list \<Rightarrow> event list" where
  "decode_logs env logs = map (decode_log env) logs"

text \<open>
  One iteration of the loop of \<open>watch_events\<close>, for the block number \<open>block\<close> that
  \<open>chain.new_blocks\<close> yielded. \<open>str(self.registry)\<close> is the address of the contract.
  Reading \<open>self.last_block\<close> before \<open>__init__\<close> has set it would raise AttributeError,
  which is \<open>OtherError\<close> here.
\<close>

definition watch_step :: "env \<Rightarrow> int \<Rightarrow> registry \<Rightarrow> error \<times> registry + registry" where
  "watch_step env block self =
     (case last_block self of
        None \<Rightarrow> Inl (OtherError ''AttributeError'', self)
      | Some l \<Rightarrow>
     (case get_logs env (contract_address (registry_contract self)) (l + 1) block of
        Inl e \<Rightarrow> Inl (e, self)
      | Inr logs \<Rightarrow>
     (case process_events env (decode_logs env logs) self of
        Inl x \<Rightarrow> Inl x
      | Inr self' \<Rightarrow> Inr (self'\<lparr>last_block := Some block\<rparr>))))"

text \<open>
  \<open>watch_events\<close> on the first blocks that \<open>chain.new_blocks\<close> yields: the generator
  never ends, so the loop is run on a finite prefix of it; an exception ends the loop (and
  the thread).
\<close>

fun watch_events :: "env \<Rightarrow> int list \<Rightarrow> registry \<Rightarrow> error \<times> registry + registry" where
  "watch_events env [] self = Inr self"
| "watch_events env (block # blocks) self =
     (case watch_step env block self of
        Inl x \<Rightarrow> Inl x
      | Inr self' \<Rightarrow> watch_events env blocks self')"

text \<open>
  Modelled from the spec: \<open>get_logs\<close> of yearn.events, which is not in this module. The
  Event Source returns the logs of a contract in a block range in chain order; the range
  of the node's log filter has both ends included. \<open>chain_logs\<close> is every log of the
  chain, in chain order.
\<close>

definition chain_get_logs :: "log list \<Rightarrow> address \<Rightarrow> int \<Rightarrow> int \<Rightarrow> error + log list" where
  "chain_get_logs chain_logs a from_block to_block =
     Inr (filter (\<lambda>l. log_address l = a \<and> from_block \<le> log_block l \<and> log_block l \<le> to_block)
            chain_logs)"

subsection \<open>VaultV2\<close>

definition VAULT_VIEWS_SCALED :: "string list" where
  "VAULT_VIEWS_SCALED =
     [''totalAssets'', ''maxAvailableShares'', ''pricePerShare'', ''debtOutstanding'',
      ''creditAvailable'', ''expectedReturn'', ''totalSupply'', ''availableDepositLimit'',
      ''depositLimit'', ''totalDebt'', ''debtLimit'']"

text \<open>The fields of the dataclass, and \<open>views\<close> for the attribute \<open>_views\<close>.\<close>

record VaultV2 =
  vault_name :: string
  api_version :: string
  vault :: contract
  strategies :: "strategy list"
  views :: "string list"

text \<open>
  The list comprehension of \<open>__post_init__\<close> over \<open>self.vault.abi\<close>. The conjunction
  is evaluated from left to right and stops at the first false conjunct;
  \<open>x["outputs"][0]\<close> raises IndexError when the entry has no output.
\<close>

fun post_init :: "abi_entry list \<Rightarrow> error + string list" where
  "post_init [] = Inr []"
| "post_init (x # xs) =
     (if entry_type x = ''function'' \<and> stateMutability x = ''view'' \<and> inputs x = [] then
        (case outputs x of
           [] \<Rightarrow> Inl IndexError
         | out # _ \<Rightarrow>
        (case post_init xs of
           Inl e \<Rightarrow> Inl e
         | Inr vs \<Rightarrow> Inr (if out = ''uint256'' then entry_name x # vs else vs)))
      else post_init xs)"

text \<open>\<open>VaultV2(name=..., api_version=..., vault=..., strategies=...)\<close>.\<close>

definition new_VaultV2 :: "string \<Rightarrow> string \<Rightarrow> contract \<Rightarrow> strategy list \<Rightarrow> error + VaultV2" where
  "new_VaultV2 n v c ss =
     (case post_init (abi c) of
        Inl e \<Rightarrow> Inl e
      | Inr vs \<Rightarrow>
          Inr \<lparr>vault_name = n, api_version = v, vault = c, strategies = ss, views = vs\<rparr>)"

text \<open>
  The loop \<open>for name in info: if name in VAULT_VIEWS_SCALED: info[name] /= scale\<close>, on
  the entries of the dict in their order: the keys of a dict are distinct, so each entry
  is visited once and keeps its place. The values come from the multicall as ints.
\<close>

fun scale_views :: "int \<Rightarrow> (string \<times> int) list \<Rightarrow> error + (string \<times> pyval) list" where
  "scale_views scale [] = Inr []"
| "scale_views scale ((n, v) # info) =
     (if n \<in> set VAULT_VIEWS_SCALED then
        (case truediv v scale of
           Inl e \<Rightarrow> Inl e
         | Inr f \<Rightarrow>
        (case scale_views scale info of
           Inl e \<Rightarrow> Inl e
         | Inr info' \<Rightarrow> Inr ((n, PyFloat f) # info')))
      else
        (case scale_views scale info of
           Inl e \<Rightarrow> Inl e
         | Inr info' \<Rightarrow> Inr ((n, PyInt v) # info')))"

text \<open>
  The body of the \<open>try\<close> of \<open>describe\<close>. \<open>dict(zip(self._views, results))\<close> is
  \<open>AList.updates\<close> on the empty dict: \<open>zip\<close> stops at the shorter list, a later value
  replaces an earlier one under the same name.
\<close>

definition describe_views :: "env \<Rightarrow> VaultV2 \<Rightarrow> int \<Rightarrow> error + (string \<times> pyval) list" where
  "describe_views env self scale =
     (case fetch_multicall env (map (\<lambda>view. (vault self, view)) (views self)) of
        Inl e \<Rightarrow> Inl e
      | Inr results \<Rightarrow>
     (case scale_views scale (AList.updates (views self) results []) of
        Inl e \<Rightarrow> Inl e
      | Inr info \<Rightarrow> Inr (AList.update ''strategies'' (PyDict []) info)))"

text \<open>The \<open>try\<close> with its clause \<open>except ValueError\<close>.\<close>

definition describe_try :: "env \<Rightarrow> VaultV2 \<Rightarrow> int \<Rightarrow> error + (string \<times> pyval) list" where
  "describe_try env self scale =
     (case describe_views env self scale of
        Inl (ValueError m) \<Rightarrow> Inr [(''strategies'', PyDict [])]
      | Inl e \<Rightarrow> Inl e
      | Inr info \<Rightarrow> Inr info)"

text \<open>
  The loop \<open>for strat in self.strategies: info["strategies"][strat.name] = strat.describe()\<close>,
  on the nested dict.
\<close>

fun describe_strategies ::
  "env \<Rightarrow> strategy list \<Rightarrow> (string \<times> pyval) list \<Rightarrow> error + (string \<times> pyval) list" where
  "describe_strategies env [] d = Inr d"
| "describe_strategies env (strat # strats) d =
     (case strategy_describe env strat of
        Inl e \<Rightarrow> Inl e
      | Inr v \<Rightarrow> describe_strategies env strats (AList.update (strategy_name strat) v d))"

text \<open>
  \<open>price * v\<close> for a float \<open>price\<close>: an int is converted to a float first, which
  raises OverflowError when it is beyond the floats; a dict cannot be multiplied.
\<close>

fun py_mul :: "pyfloat \<Rightarrow> pyval \<Rightarrow> error + pyval" where
  "py_mul p (PyFloat f) = Inr (PyFloat (fmul p f))"
| "py_mul p (PyInt i) =
     (case round_rat (of_int i) of
        Finite y \<Rightarrow> Inr (PyFloat (fmul p (Finite y)))
      | _ \<Rightarrow> Inl OverflowError)"
| "py_mul p (PyDict d) = Inl TypeError"

text \<open>\<open>VaultV2.describe\<close>.\<close>

definition describe :: "env \<Rightarrow> VaultV2 \<Rightarrow> error + (string \<times> pyval) list" where
  "describe env self =
     (case decimals env (vault self) of
        Inl e \<Rightarrow> Inl e
      | Inr d \<Rightarrow>
     (case describe_try env self (10 ^ d) of
        Inl e \<Rightarrow> Inl e
      | Inr info \<Rightarrow>
     (case describe_strategies env (strategies self) [] of
        Inl e \<Rightarrow> Inl e
      | Inr sd \<Rightarrow>
     (case token env (vault self) of
        Inl e \<Rightarrow> Inl e
      | Inr t \<Rightarrow>
     (case token_price env t of
        Inl e \<Rightarrow> Inl e
      | Inr p \<Rightarrow>
     (let info1 = AList.update ''strategies'' (PyDict sd) info;
          info2 = AList.update ''token price'' (PyFloat p) info1
      in case map_of info2 ''totalAssets'' of
           None \<Rightarrow> Inr info2
         | Some ta \<Rightarrow>
        (case py_mul p ta of
           Inl e \<Rightarrow> Inl e
         | Inr tvl \<Rightarrow> Inr (AList.update ''tvl'' tvl info2))))))))"

subsection \<open>get_vaults\<close>

text \<open>
  \<open>events[key]\<close> on what \<open>fetch_events\<close> returns: the events of that name, in order;
  brownie raises EventLookupError when there is none.
\<close>

definition events_named :: "event list \<Rightarrow> string \<Rightarrow> error + event list" where
  "events_named evts key =
     (case filter (\<lambda>e. name e = key) evts of
        [] \<Rightarrow> Inl (EventLookupError key)
      | es \<Rightarrow> Inr es)"

text \<open>The dict comprehension \<open>versions\<close>.\<close>

fun release_abis ::
  "env \<Rightarrow> event list \<Rightarrow> (string \<rightharpoonup> abi_entry list) \<Rightarrow> error + (string \<rightharpoonup> abi_entry list)" where
  "release_abis env [] versions = Inr versions"
| "release_abis env (x # xs) versions =
     (case getitem x ''api_version'' of
        Inl e \<Rightarrow> Inl e
      | Inr v \<Rightarrow>
     (case getitem x ''template'' of
        Inl e \<Rightarrow> Inl e
      | Inr t \<Rightarrow>
     (case Contract env t of
        Inl e \<Rightarrow> Inl e
      | Inr c \<Rightarrow> release_abis env xs (versions(v \<mapsto> abi c)))))"

text \<open>The list comprehension \<open>vaults\<close>.\<close>

fun vault_contracts :: "(string \<rightharpoonup> abi_entry list) \<Rightarrow> event list \<Rightarrow> error + contract list" where
  "vault_contracts versions [] = Inr []"
| "vault_contracts versions (x # xs) =
     (case getitem x ''api_version'' of
        Inl e \<Rightarrow> Inl e
      | Inr v \<Rightarrow>
     (case getitem x ''vault'' of
        Inl e \<Rightarrow> Inl e
      | Inr a \<Rightarrow>
     (case versions v of
        None \<Rightarrow> Inl (KeyError v)
      | Some b \<Rightarrow>
     (case vault_contracts versions xs of
        Inl e \<Rightarrow> Inl e
      | Inr cs \<Rightarrow> Inr (from_abi (''Vault v'' @ v) a b # cs)))))"

text \<open>The list comprehension \<open>names\<close>, over \<open>zip(events[event_key], symbols)\<close>.\<close>

fun vault_names :: "(event \<times> string) list \<Rightarrow> error + string list" where
  "vault_names [] = Inr []"
| "vault_names ((x, n) # xs) =
     (case getitem x ''api_version'' of
        Inl e \<Rightarrow> Inl e
      | Inr v \<Rightarrow>
     (case vault_names xs of
        Inl e \<Rightarrow> Inl e
      | Inr ns \<Rightarrow> Inr ((n @ '' '' @ v) # ns)))"

text \<open>The list comprehension that \<open>get_vaults\<close> returns, over the zip of three lists.\<close>

fun vault_objects :: "(string \<times> contract \<times> event) list \<Rightarrow> error + VaultV2 list" where
  "vault_objects [] = Inr []"
| "vault_objects ((n, c, x) # xs) =
     (case getitem x ''api_version'' of
        Inl e \<Rightarrow> Inl e
      | Inr v \<Rightarrow>
     (case new_VaultV2 n v c [] of
        Inl e \<Rightarrow> Inl e
      | Inr obj \<Rightarrow>
     (case vault_objects xs of
        Inl e \<Rightarrow> Inl e
      | Inr objs \<Rightarrow> Inr (obj # objs))))"

definition get_vaults :: "env \<Rightarrow> string \<Rightarrow> error + VaultV2 list" where
  "get_vaults env event_key =
     (case Contract env ''v2.registry.ychad.eth'' of
        Inl e \<Rightarrow> Inl e
      | Inr r \<Rightarrow>
     (case fetch_events env r of
        Inl e \<Rightarrow> Inl e
      | Inr evts \<Rightarrow>
     (case events_named evts ''NewRelease'' of
        Inl e \<Rightarrow> Inl e
      | Inr rels \<Rightarrow>
     (case release_abis env rels Map.empty of
        Inl e \<Rightarrow> Inl e
      | Inr versions \<Rightarrow>
     (case events_named evts event_key of
        Inl e \<Rightarrow> Inl e
      | Inr vevts \<Rightarrow>
     (case vault_contracts versions vevts of
        Inl e \<Rightarrow> Inl e
      | Inr cs \<Rightarrow>
     (case fetch_symbols env (map (\<lambda>x. (x, ''symbol'')) cs) of
        Inl e \<Rightarrow> Inl e
      | Inr symbols \<Rightarrow>
     (case vault_names (zip vevts symbols) of
        Inl e \<Rightarrow> Inl e
      | Inr ns \<Rightarrow> vault_objects (zip ns (zip cs vevts))))))))))"

definition get_experimental_vaults :: "env \<Rightarrow> error + VaultV2 list" where
  "get_experimental_vaults env = get_vaults env ''NewExperimentalVault''"

subsection \<open>Example inputs\<close>

text \<open>
  A registry with one release \<open>0.3.0\<close> and one vault, a chain of four logs, and a vault
  with two numeric views, one of them scaled. They are the inputs of the witnesses and
  counterexamples below.
\<close>

definition mk_event :: "string \<Rightarrow> int \<Rightarrow> (string \<times> string) list \<Rightarrow> event" where
  "mk_event n b kvs = \<lparr>name = n, block_number = b, args = map_of kvs\<rparr>"

definition ex_release :: event where
  "ex_release =
     mk_event ''NewRelease'' 100 [(''api_version'', ''0.3.0''), (''template'', ''templateX'')]"

definition ex_new_vault :: event where
  "ex_new_vault =
     mk_event ''NewVault'' 120 [(''api_version'', ''0.3.0''), (''vault'', ''vaultY'')]"

definition ex_unknown :: event where
  "ex_unknown = mk_event ''Transfer'' 160 []"

definition ex_abi :: "abi_entry list" where
  "ex_abi =
     [\<lparr>entry_type = ''function'', entry_name = ''totalAssets'', stateMutability = ''view'',
       inputs = [], outputs = [''uint256'']\<rparr>,
      \<lparr>entry_type = ''function'', entry_name = ''symbol'', stateMutability = ''view'',
       inputs = [], outputs = [''string'']\<rparr>,
      \<lparr>entry_type = ''function'', entry_name = ''deposit'', stateMutability = ''nonpayable'',
       inputs = [''uint256''], outputs = [''uint256'']\<rparr>,
      \<lparr>entry_type = ''function'', entry_name = ''activation'', stateMutability = ''view'',
       inputs = [], outputs = [''uint256'']\<rparr>]"

definition ex_template :: contract where
  "ex_template = \<lparr>contract_name = ''Vault'', contract_address = ''templateX'', abi = ex_abi\<rparr>"

definition ex_registry_contract :: contract where
  "ex_registry_contract =
     \<lparr>contract_name = ''Registry'', contract_address = ''registry'', abi = []\<rparr>"

definition ex_chain :: "log list" where
  "ex_chain =
     [\<lparr>log_address = ''registry'', log_block = 100, log_data = ''NewRelease''\<rparr>,
      \<lparr>log_address = ''elsewhere'', log_block = 110, log_data = ''NewVault''\<rparr>,
      \<lparr>log_address = ''registry'', log_block = 120, log_data = ''NewVault''\<rparr>,
      \<lparr>log_address = ''registry'', log_block = 160, log_data = ''Transfer''\<rparr>]"

definition ex_decode_log :: "log \<Rightarrow> event" where
  "ex_decode_log l =
     (if log_data l = ''NewRelease'' then
        mk_event ''NewRelease'' (log_block l)
          [(''api_version'', ''0.3.0''), (''template'', ''templateX'')]
      else if log_data l = ''NewVault'' then
        mk_event ''NewVault'' (log_block l) [(''api_version'', ''0.3.0''), (''vault'', ''vaultY'')]
      else mk_event (log_data l) (log_block l) [])"

definition ex_strategy :: strategy where
  "ex_strategy = \<lparr>strategy_name = ''StrategyA'', strategy_address = ''strategyA''\<rparr>"

definition ex_env :: env where
  "ex_env =
     \<lparr>resolve = (\<lambda>n. Inr ''registry''),
      Contract = (\<lambda>a. if a = ''templateX'' then Inr ex_template else Inr ex_registry_contract),
      fetch_events = (\<lambda>c. Inr [ex_release, ex_new_vault]),
      get_logs = chain_get_logs ex_chain,
      decode_log = ex_decode_log,
      symbol = (\<lambda>c. Inr ''yvDAI''),
      decimals = (\<lambda>c. Inr 6),
      token = (\<lambda>c. Inr ''dai''),
      fetch_multicall = (\<lambda>calls. Inr [5000000, 1600000000]),
      fetch_symbols = (\<lambda>calls. Inr (map (\<lambda>c. ''yvDAI'') calls)),
      strategy_describe = (\<lambda>s. Inr (PyDict [(''debt'', PyInt 1)])),
      token_price = (\<lambda>t. Inr (Finite 2))\<rparr>"

definition ex_vault_contract :: contract where
  "ex_vault_contract = from_abi ''Vault v0.3.0'' ''vaultY'' ex_abi"

text \<open>The registry after the release, before the vault, with the cursor at block 100.\<close>

definition ex_registry :: registry where
  "ex_registry =
     \<lparr>registry_contract = ex_registry_contract, governance = None,
      api_versions = [''0.3.0'' \<mapsto> ex_template], vaults = Map.empty, names = Map.empty,
      endorsed = Map.empty, tags = Map.empty, events = [ex_release],
      last_block = Some 100\<rparr>"

text \<open>The same registry once the vault of block 120 is applied (the cursor is not moved).\<close>

definition ex_registry_vault :: registry where
  "ex_registry_vault =
     ex_registry\<lparr>vaults := [''vaultY'' \<mapsto> ex_vault_contract],
                 names := [''vaultY'' \<mapsto> ''yvDAI 0.3.0'']\<rparr>"

definition ex_vault :: VaultV2 where
  "ex_vault =
     \<lparr>vault_name = ''yvDAI 0.3.0'', api_version = ''0.3.0'', vault = ex_vault_contract,
      strategies = [ex_strategy], views = [''totalAssets'', ''activation'']\<rparr>"

text \<open>The environment when the multicall raises a ValueError, and when it raises another exception.\<close>

definition ex_env_value_error :: env where
  "ex_env_value_error = ex_env\<lparr>fetch_multicall := \<lambda>calls. Inl (ValueError ''insufficient data'')\<rparr>"

definition ex_env_other_error :: env where
  "ex_env_other_error = ex_env\<lparr>fetch_multicall := \<lambda>calls. Inl (OtherError ''ConnectionError'')\<rparr>"

text \<open>The environment when a view returns more than a float can hold.\<close>

definition ex_env_overflow :: env where
  "ex_env_overflow =
     ex_env\<lparr>decimals := \<lambda>c. Inr 0, fetch_multicall := \<lambda>calls. Inr [2 ^ 1024, 1600000000]\<rparr>"

text \<open>What \<open>describe\<close> returns for the example vault.\<close>

definition ex_snapshot :: "(string \<times> pyval) list" where
  "ex_snapshot =
     [(''totalAssets'', PyFloat (Finite 5)),
      (''activation'', PyInt 1600000000),
      (''strategies'', PyDict [(''StrategyA'', PyDict [(''debt'', PyInt 1)])]),
      (''token price'', PyFloat (Finite 2)),
      (''tvl'', PyFloat (Finite 10))]"

definition ex_snapshot_degraded :: "(string \<times> pyval) list" where
  "ex_snapshot_degraded =
     [(''strategies'', PyDict [(''StrategyA'', PyDict [(''debt'', PyInt 1)])]),
      (''token price'', PyFloat (Finite 2))]"

text \<open>
  A vault whose ABI has a numeric view named \<open>tvl\<close>, and the environment in which that
  view returns 7.
\<close>

definition ex_abi_tvl :: "abi_entry list" where
  "ex_abi_tvl =
     [\<lparr>entry_type = ''function'', entry_name = ''totalAssets'', stateMutability = ''view'',
       inputs = [], outputs = [''uint256'']\<rparr>,
      \<lparr>entry_type = ''function'', entry_name = ''tvl'', stateMutability = ''view'',
       inputs = [], outputs = [''uint256'']\<rparr>]"

definition ex_vault_tvl :: VaultV2 where
  "ex_vault_tvl =
     \<lparr>vault_name = ''yvDAI 0.3.1'', api_version = ''0.3.1'',
      vault = from_abi ''Vault v0.3.1'' ''vaultZ'' ex_abi_tvl,
      strategies = [], views = [''totalAssets'', ''tvl'']\<rparr>"

definition ex_env_tvl :: env where
  "ex_env_tvl = ex_env\<lparr>fetch_multicall := \<lambda>calls. Inr [5000000, 7]\<rparr>"

definition ex_snapshot_tvl :: "(string \<times> pyval) list" where
  "ex_snapshot_tvl =
     [(''totalAssets'', PyFloat (Finite 5)),
      (''tvl'', PyFloat (Finite 10)),
      (''strategies'', PyDict []),
      (''token price'', PyFloat (Finite 2))]"

section \<open>Properties of the registry\<close>

subsection \<open>The event loop\<close>

lemmas ex_defs = ex_env_def ex_release_def ex_new_vault_def ex_unknown_def mk_event_def
  ex_template_def ex_registry_contract_def ex_chain_def ex_decode_log_def ex_strategy_def
  ex_vault_contract_def ex_registry_def ex_registry_vault_def ex_vault_def
  ex_env_value_error_def ex_env_other_error_def ex_env_overflow_def

lemma process_events_append:
  "process_events env (xs @ ys) self =
     (case process_events env xs self of
        Inl x \<Rightarrow> Inl x
      | Inr self' \<Rightarrow> process_events env ys self')"
  by (induction xs arbitrary: self) (auto split: sum.splits)

lemma process_events_halt:
  assumes "process_events env pre self = Inr self1"
    and "process_event env evt self1 = Inl x"
  shows "process_events env (pre @ evt # post) self = Inl x"
  using assms by (simp add: process_events_append)

lemma process_event_last_block:
  "process_event env evt self = Inr self' \<Longrightarrow> last_block self' = last_block self"
  "process_event env evt self = Inl (e, self') \<Longrightarrow> last_block self' = last_block self"
  by (auto simp: process_event_def Let_def split: if_splits sum.splits option.splits)

lemma process_events_last_block:
  "process_events env evts self = Inr self' \<Longrightarrow> last_block self' = last_block self"
proof (induction evts arbitrary: self)
  case Nil
  then show ?case by simp
next
  case (Cons a evts)
  then obtain s1 where "process_event env a self = Inr s1"
      and "process_events env evts s1 = Inr self'"
    by (auto split: sum.splits)
  then show ?case
    using Cons.IH [of s1] process_event_last_block(1) [of env a self s1] by simp
qed

lemma process_events_raise_last_block:
  "process_events env evts self = Inl (e, self') \<Longrightarrow> last_block self' = last_block self"
proof (induction evts arbitrary: self)
  case Nil
  then show ?case by simp
next
  case (Cons a evts)
  show ?case
  proof (cases "process_event env a self")
    case (Inl x)
    with Cons.prems show ?thesis
      using process_event_last_block(2) [of env a self e self'] by simp
  next
    case (Inr s1)
    with Cons.prems have "process_events env evts s1 = Inl (e, self')" by simp
    then show ?thesis
      using Cons.IH [of s1] process_event_last_block(1) [OF Inr] by simp
  qed
qed

lemma process_event_unknown:
  assumes "name evt \<notin> {''NewGovernance'', ''NewRelease'', ''NewVault'', ''NewExperimentalVault'', ''VaultTagged''}"
  shows "process_event env evt self = Inl (UnknownEvent (name evt), self)"
  using assms by (simp add: process_event_def)

lemma process_event_missing_release:
  assumes "name evt \<in> {''NewVault'', ''NewExperimentalVault''}"
    and "args evt ''vault'' = Some a" and "args evt ''api_version'' = Some v"
    and "vaults self a = None" and "api_versions self v = None"
  shows "process_event env evt self = Inl (KeyError v, self)"
  using assms by (auto simp: process_event_def getitem_def)

lemma process_event_known_vault:
  assumes "name evt \<in> {''NewVault'', ''NewExperimentalVault''}"
    and "args evt ''vault'' = Some a" and "vaults self a \<noteq> None"
  shows "process_event env evt self = Inr self"
  using assms by (auto simp: process_event_def getitem_def)

lemma process_event_new_vault:
  assumes "name evt \<in> {''NewVault'', ''NewExperimentalVault''}"
    and "args evt ''vault'' = Some a" and "args evt ''api_version'' = Some v"
    and "vaults self a = None" and "api_versions self v = Some template"
    and "symbol env (from_abi (''Vault v'' @ v) a (abi template)) = Inr s"
  shows "process_event env evt self =
     Inr (self\<lparr>vaults := (vaults self)(a \<mapsto> from_abi (''Vault v'' @ v) a (abi template)),
              names := (names self)(a \<mapsto> s @ '' '' @ v)\<rparr>)"
  using assms by (auto simp: process_event_def getitem_def Let_def)

lemma process_event_release:
  assumes "name evt = ''NewRelease''"
    and "args evt ''template'' = Some t" and "args evt ''api_version'' = Some v"
    and "Contract env t = Inr c"
  shows "process_event env evt self = Inr (self\<lparr>api_versions := (api_versions self)(v \<mapsto> c)\<rparr>)"
  using assms by (auto simp: process_event_def getitem_def)

lemma process_event_vault_known_after:
  assumes "name evt \<in> {''NewVault'', ''NewExperimentalVault''}"
    and "process_event env evt self = Inr self'"
  shows "\<exists>a. args evt ''vault'' = Some a \<and> vaults self' a \<noteq> None"
  using assms
  by (auto simp: process_event_def getitem_def Let_def split: if_splits sum.splits option.splits)

lemma watch_step_raise:
  assumes "last_block self = Some l"
    and "get_logs env (contract_address (registry_contract self)) (l + 1) block = Inr logs"
    and "process_events env (decode_logs env logs) self = Inl x"
  shows "watch_step env block self = Inl x"
  using assms by (simp add: watch_step_def)

lemma watch_step_return:
  assumes "last_block self = Some l"
    and "get_logs env (contract_address (registry_contract self)) (l + 1) block = Inr logs"
    and "process_events env (decode_logs env logs) self = Inr self'"
  shows "watch_step env block self = Inr (self'\<lparr>last_block := Some block\<rparr>)"
  using assms by (simp add: watch_step_def)

lemma Registry_init_raise:
  assumes "resolve env ''v2.registry.ychad.eth'' = Inr a" and "Contract env a = Inr r"
    and "fetch_events env r = Inr evts"
    and "process_events env evts (new_registry r evts) = Inl (e, self')"
  shows "Registry_init env = Inl e"
  using assms by (simp add: Registry_init_def)


lemma ex_new_vault_applied:
  "process_events ex_env [ex_new_vault] ex_registry = Inr ex_registry_vault"
  by (simp add: process_event_def getitem_def ex_defs from_abi_def)

lemma release_then_vault_errors:
  assumes "name evt \<in> {''NewVault'', ''NewExperimentalVault''}"
    and "args evt ''vault'' = Some a" and "args evt ''api_version'' = Some v"
    and "name rel = ''NewRelease''"
    and "args rel ''api_version'' = Some v" and "args rel ''template'' = Some t"
    and "process_events env [rel, evt] self = Inl (e, self')"
  shows "Contract env t = Inl e \<or>
         (\<exists>c. Contract env t = Inr c \<and> symbol env (from_abi (''Vault v'' @ v) a (abi c)) = Inl e)"
proof (cases "Contract env t")
  case (Inl e')
  with assms show ?thesis
    by (auto simp: process_event_def getitem_def)
next
  case (Inr c)
  let ?s1 = "self\<lparr>api_versions := (api_versions self)(v \<mapsto> c)\<rparr>"
  have r: "process_event env rel self = Inr ?s1"
    using process_event_release [OF assms(4,6,5) Inr] .
  with assms(7) have f: "process_event env evt ?s1 = Inl (e, self')"
    by (simp split: sum.splits)
  show ?thesis
  proof (cases "vaults self a = None")
    case True
    show ?thesis
    proof (cases "symbol env (from_abi (''Vault v'' @ v) a (abi c))")
      case (Inl e')
      with f True assms(1,2,3) have "e' = e"
        by (auto simp: process_event_def getitem_def Let_def)
      with Inl Inr show ?thesis by simp
    next
      case s: (Inr s)
      have "vaults ?s1 a = None" "api_versions ?s1 v = Some c" using True by simp_all
      from process_event_new_vault [OF assms(1,2,3) this s] f show ?thesis by simp
    qed
  next
    case False
    then have "vaults ?s1 a \<noteq> None" by simp
    from process_event_known_vault [OF assms(1,2) this] f show ?thesis by simp
  qed
qed

text \<open>The example registry and the example chain.\<close>

lemma ex_unknown_name: "name ex_unknown = ''Transfer''"
  by (simp add: ex_unknown_def mk_event_def)

lemma ex_unknown_not_known:
  "name ex_unknown \<notin> {''NewGovernance'', ''NewRelease'', ''NewVault'',
                         ''NewExperimentalVault'', ''VaultTagged''}"
  by (simp add: ex_unknown_name)

lemma ex_registry_cursor: "last_block ex_registry = Some 100"
  by (simp add: ex_registry_def)

lemma ex_logs_100_160:
  "get_logs ex_env (contract_address (registry_contract ex_registry)) (100 + 1) 160 =
     Inr [\<lparr>log_address = ''registry'', log_block = 120, log_data = ''NewVault''\<rparr>,
          \<lparr>log_address = ''registry'', log_block = 160, log_data = ''Transfer''\<rparr>]"
  by (simp add: ex_defs chain_get_logs_def)

lemma ex_decode_100_160:
  "decode_logs ex_env
     [\<lparr>log_address = ''registry'', log_block = 120, log_data = ''NewVault''\<rparr>,
      \<lparr>log_address = ''registry'', log_block = 160, log_data = ''Transfer''\<rparr>] =
   [ex_new_vault] @ ex_unknown # []"
  by (simp add: ex_defs decode_logs_def)

lemma ex_release_applied:
  "process_events (ex_env\<lparr>fetch_events := f\<rparr>) [ex_release] (new_registry ex_registry_contract evts) =
     Inr ((new_registry ex_registry_contract evts)\<lparr>api_versions := [''0.3.0'' \<mapsto> ex_template]\<rparr>)"
  by (simp add: process_event_def getitem_def ex_defs new_registry_def)

lemma ex_new_vault_fields:
  "name ex_new_vault \<in> {''NewVault'', ''NewExperimentalVault''}"
  "args ex_new_vault ''vault'' = Some ''vaultY''"
  "args ex_new_vault ''api_version'' = Some ''0.3.0''"
  by (simp_all add: ex_new_vault_def mk_event_def)

lemma ex_release_fields:
  "name ex_release = ''NewRelease''"
  "args ex_release ''api_version'' = Some ''0.3.0''"
  "args ex_release ''template'' = Some ''templateX''"
  by (simp_all add: ex_release_def mk_event_def)

lemma ex_logs_100_150:
  "get_logs ex_env (contract_address (registry_contract (ex_registry\<lparr>api_versions := m\<rparr>)))
     (100 + 1) 150 =
     Inr [\<lparr>log_address = ''registry'', log_block = 120, log_data = ''NewVault''\<rparr>]"
  by (simp add: ex_defs chain_get_logs_def)

lemma ex_decode_100_150:
  "decode_logs ex_env [\<lparr>log_address = ''registry'', log_block = 120, log_data = ''NewVault''\<rparr>] =
   [] @ ex_new_vault # []"
  by (simp add: ex_defs decode_logs_def)

subsection \<open>Replay of a creation event\<close>

text \<open>
  C6. A creation event (NewVault or NewExperimentalVault) that applies to a registry applies
  a second time without any effect: after the first application its vault address is a key
  of \<open>vaults\<close>, and the branch ends with \<open>continue\<close>. In particular a creation event
  whose address is already a key leaves every attribute as it was.
\<close>

theorem vault_created_idempotent:
  assumes "name evt \<in> {''NewVault'', ''NewExperimentalVault''}"
    and "process_events env [evt] self = Inr self'"
  shows "process_events env [evt, evt] self = Inr self' \<and>
         (\<forall>a. args evt ''vault'' = Some a \<longrightarrow> vaults self a \<noteq> None \<longrightarrow> self' = self)"
proof -
  from assms(2) have step: "process_event env evt self = Inr self'"
    by (simp split: sum.splits)
  from process_event_vault_known_after [OF assms(1) step]
  obtain a where a: "args evt ''vault'' = Some a" "vaults self' a \<noteq> None"
    by blast
  have "process_event env evt self' = Inr self'"
    using process_event_known_vault [OF assms(1) a] .
  with step have twice: "process_events env [evt, evt] self = Inr self'"
    by simp
  have "self' = self" if "args evt ''vault'' = Some b" "vaults self b \<noteq> None" for b
    using process_event_known_vault [OF assms(1) that, of env] step by simp
  with twice show ?thesis by blast
qed

theorem vault_created_idempotent_witness:
  "name ex_new_vault \<in> {''NewVault'', ''NewExperimentalVault''} \<and>
   process_events ex_env [ex_new_vault] ex_registry = Inr ex_registry_vault \<and>
   process_events ex_env [ex_new_vault, ex_new_vault] ex_registry = Inr ex_registry_vault \<and>
   process_events ex_env [ex_new_vault] ex_registry_vault = Inr ex_registry_vault"
proof -
  have h1: "name ex_new_vault \<in> {''NewVault'', ''NewExperimentalVault''}"
    by (simp add: ex_new_vault_def mk_event_def)
  have h2: "process_events ex_env [ex_new_vault] ex_registry = Inr ex_registry_vault"
    by (rule ex_new_vault_applied)
  have h3: "process_events ex_env [ex_new_vault] ex_registry_vault = Inr ex_registry_vault"
    by (simp add: process_event_def getitem_def ex_defs)
  from vault_created_idempotent [OF h1 h2] h1 h2 h3 show ?thesis by simp
qed

subsection \<open>Events of an unknown kind\<close>

text \<open>
  C5. An event whose name is none of NewGovernance, NewRelease, NewVault,
  NewExperimentalVault and VaultTagged makes \<open>process_events\<close> raise UnknownEvent with
  that name, once the events before it are applied. Neither \<open>__init__\<close> nor
  \<open>watch_events\<close> catches it: the constructor raises it, and so does the iteration of
  the watch loop, which ends the loop.
\<close>

theorem unknown_event_raises:
  assumes "name evt \<notin> {''NewGovernance'', ''NewRelease'', ''NewVault'',
                         ''NewExperimentalVault'', ''VaultTagged''}"
    and "process_events env pre self = Inr self1"
  shows "process_events env (pre @ evt # post) self = Inl (UnknownEvent (name evt), self1) \<and>
         (\<forall>a r. resolve env ''v2.registry.ychad.eth'' = Inr a \<longrightarrow> Contract env a = Inr r \<longrightarrow>
                fetch_events env r = Inr (pre @ evt # post) \<longrightarrow>
                self = new_registry r (pre @ evt # post) \<longrightarrow>
                Registry_init env = Inl (UnknownEvent (name evt))) \<and>
         (\<forall>l logs. last_block self = Some l \<longrightarrow>
                get_logs env (contract_address (registry_contract self)) (l + 1) block = Inr logs \<longrightarrow>
                decode_logs env logs = pre @ evt # post \<longrightarrow>
                watch_step env block self = Inl (UnknownEvent (name evt), self1) \<and>
                watch_events env (block # blocks) self = Inl (UnknownEvent (name evt), self1))"
proof -
  have raise: "process_events env (pre @ evt # post) self = Inl (UnknownEvent (name evt), self1)"
    using process_events_halt [OF assms(2) process_event_unknown [OF assms(1)]] .
  have init: "Registry_init env = Inl (UnknownEvent (name evt))"
    if "resolve env ''v2.registry.ychad.eth'' = Inr a" "Contract env a = Inr r"
      "fetch_events env r = Inr (pre @ evt # post)" "self = new_registry r (pre @ evt # post)"
    for a r
    using Registry_init_raise [OF that(1,2,3)] raise that(4) by simp
  have watch: "watch_step env block self = Inl (UnknownEvent (name evt), self1) \<and>
               watch_events env (block # blocks) self = Inl (UnknownEvent (name evt), self1)"
    if "last_block self = Some l"
      "get_logs env (contract_address (registry_contract self)) (l + 1) block = Inr logs"
      "decode_logs env logs = pre @ evt # post"
    for l logs
    using watch_step_raise [OF that(1,2)] raise that(3) by simp
  from raise init watch show ?thesis by blast
qed

theorem unknown_event_raises_witness:
  "process_events ex_env ([ex_new_vault] @ ex_unknown # []) ex_registry =
     Inl (UnknownEvent ''Transfer'', ex_registry_vault) \<and>
   watch_step ex_env 160 ex_registry = Inl (UnknownEvent ''Transfer'', ex_registry_vault) \<and>
   watch_events ex_env [160, 170] ex_registry = Inl (UnknownEvent ''Transfer'', ex_registry_vault) \<and>
   Registry_init (ex_env\<lparr>fetch_events := \<lambda>c. Inr ([ex_release] @ ex_unknown # [])\<rparr>) =
     Inl (UnknownEvent ''Transfer'')"
proof -
  note t = unknown_event_raises [OF ex_unknown_not_known ex_new_vault_applied,
      where post = "[]" and block = 160 and blocks = "[170]"]
  from t have a: "process_events ex_env ([ex_new_vault] @ ex_unknown # []) ex_registry =
     Inl (UnknownEvent ''Transfer'', ex_registry_vault)"
    by (simp add: ex_unknown_name)
  from t ex_registry_cursor ex_logs_100_160 ex_decode_100_160
  have b: "watch_step ex_env 160 ex_registry = Inl (UnknownEvent ''Transfer'', ex_registry_vault) \<and>
     watch_events ex_env [160, 170] ex_registry = Inl (UnknownEvent ''Transfer'', ex_registry_vault)"
    unfolding ex_unknown_name by blast
  let ?env = "ex_env\<lparr>fetch_events := \<lambda>c. Inr ([ex_release] @ ex_unknown # [])\<rparr>"
  have r: "resolve ?env ''v2.registry.ychad.eth'' = Inr ''registry''"
    and c: "Contract ?env ''registry'' = Inr ex_registry_contract"
    and f: "fetch_events ?env ex_registry_contract = Inr ([ex_release] @ ex_unknown # [])"
    by (simp_all add: ex_env_def)
  from unknown_event_raises [OF ex_unknown_not_known
      ex_release_applied [of "\<lambda>c. Inr ([ex_release] @ ex_unknown # [])"
        "[ex_release] @ ex_unknown # []"], where post = "[]"] r c f
  have i: "Registry_init ?env = Inl (UnknownEvent ''Transfer'')"
    unfolding ex_unknown_name by blast
  from a b i show ?thesis by blast
qed


subsection \<open>A vault needs its release\<close>

text \<open>
  C4. A NewRelease event for a version followed by a creation event for that version
  applies when the template resolves and the vault answers \<open>symbol()\<close>, and raises
  nothing but what one of these two calls raises. A creation
  event for an address that is not yet a key of \<open>vaults\<close>, whose version is not a key of
  \<open>api_versions\<close>, raises KeyError on \<open>self.api_versions[evt['api_version']]\<close>: this is
  the MissingRelease of the specification. Nothing catches it: \<open>process_events\<close>, the
  iteration of the watch loop and the constructor raise it.
\<close>

theorem release_before_vault:
  assumes "name evt \<in> {''NewVault'', ''NewExperimentalVault''}"
    and "args evt ''vault'' = Some a" and "args evt ''api_version'' = Some v"
    and "name rel = ''NewRelease''"
    and "args rel ''api_version'' = Some v" and "args rel ''template'' = Some t"
  shows "(\<forall>c s. Contract env t = Inr c \<longrightarrow>
                symbol env (from_abi (''Vault v'' @ v) a (abi c)) = Inr s \<longrightarrow>
                (\<exists>self'. process_events env [rel, evt] self = Inr self')) \<and>
         (\<forall>e self'. process_events env [rel, evt] self = Inl (e, self') \<longrightarrow>
                Contract env t = Inl e \<or>
                (\<exists>c. Contract env t = Inr c \<and>
                     symbol env (from_abi (''Vault v'' @ v) a (abi c)) = Inl e)) \<and>
         (\<forall>self1. process_events env pre self = Inr self1 \<longrightarrow> vaults self1 a = None \<longrightarrow>
                api_versions self1 v = None \<longrightarrow>
                process_events env (pre @ evt # post) self = Inl (KeyError v, self1) \<and>
                (\<forall>l logs. last_block self = Some l \<longrightarrow>
                   get_logs env (contract_address (registry_contract self)) (l + 1) block
                     = Inr logs \<longrightarrow>
                   decode_logs env logs = pre @ evt # post \<longrightarrow>
                   watch_step env block self = Inl (KeyError v, self1)) \<and>
                (\<forall>ra r. resolve env ''v2.registry.ychad.eth'' = Inr ra \<longrightarrow>
                   Contract env ra = Inr r \<longrightarrow>
                   fetch_events env r = Inr (pre @ evt # post) \<longrightarrow>
                   self = new_registry r (pre @ evt # post) \<longrightarrow>
                   Registry_init env = Inl (KeyError v)))"
proof -
  have ordered: "\<exists>self'. process_events env [rel, evt] self = Inr self'"
    if c: "Contract env t = Inr c"
      and s: "symbol env (from_abi (''Vault v'' @ v) a (abi c)) = Inr s" for c s
  proof -
    let ?s1 = "self\<lparr>api_versions := (api_versions self)(v \<mapsto> c)\<rparr>"
    have r: "process_event env rel self = Inr ?s1"
      using process_event_release [OF assms(4,6,5) c] .
    show ?thesis
    proof (cases "vaults self a = None")
      case True
      then have "vaults ?s1 a = None" and "api_versions ?s1 v = Some c" by simp_all
      from process_event_new_vault [OF assms(1,2,3) this s] r show ?thesis by simp
    next
      case False
      then have "vaults ?s1 a \<noteq> None" by simp
      from process_event_known_vault [OF assms(1,2) this] r show ?thesis by simp
    qed
  qed
  have reversed: "process_events env (pre @ evt # post) self = Inl (KeyError v, self1) \<and>
      (\<forall>l logs. last_block self = Some l \<longrightarrow>
         get_logs env (contract_address (registry_contract self)) (l + 1) block = Inr logs \<longrightarrow>
         decode_logs env logs = pre @ evt # post \<longrightarrow>
         watch_step env block self = Inl (KeyError v, self1)) \<and>
      (\<forall>ra r. resolve env ''v2.registry.ychad.eth'' = Inr ra \<longrightarrow>
         Contract env ra = Inr r \<longrightarrow>
         fetch_events env r = Inr (pre @ evt # post) \<longrightarrow>
         self = new_registry r (pre @ evt # post) \<longrightarrow>
         Registry_init env = Inl (KeyError v))"
    if p: "process_events env pre self = Inr self1"
      and m: "vaults self1 a = None" "api_versions self1 v = None" for self1
  proof -
    have raise: "process_events env (pre @ evt # post) self = Inl (KeyError v, self1)"
      using process_events_halt [OF p process_event_missing_release [OF assms(1,2,3) m]] .
    have watch: "watch_step env block self = Inl (KeyError v, self1)"
      if "last_block self = Some l"
        "get_logs env (contract_address (registry_contract self)) (l + 1) block = Inr logs"
        "decode_logs env logs = pre @ evt # post" for l logs
      using watch_step_raise [OF that(1,2)] raise that(3) by simp
    have init: "Registry_init env = Inl (KeyError v)"
      if "resolve env ''v2.registry.ychad.eth'' = Inr ra" "Contract env ra = Inr r"
        "fetch_events env r = Inr (pre @ evt # post)" "self = new_registry r (pre @ evt # post)"
      for ra r
      using Registry_init_raise [OF that(1,2,3)] raise that(4) by simp
    from raise watch init show ?thesis by blast
  qed
  from release_then_vault_errors [OF assms, of env self]
  have collaborators: "Contract env t = Inl e \<or>
      (\<exists>c. Contract env t = Inr c \<and> symbol env (from_abi (''Vault v'' @ v) a (abi c)) = Inl e)"
    if "process_events env [rel, evt] self = Inl (e, self')" for e self'
    using that by blast
  from ordered collaborators reversed show ?thesis by blast
qed

theorem release_before_vault_witness:
  "(\<exists>self'. process_events ex_env [ex_release, ex_new_vault]
              (new_registry ex_registry_contract []) = Inr self') \<and>
   process_events ex_env ([] @ ex_new_vault # [ex_release]) (new_registry ex_registry_contract []) =
     Inl (KeyError ''0.3.0'', new_registry ex_registry_contract []) \<and>
   watch_step ex_env 150 (ex_registry\<lparr>api_versions := Map.empty\<rparr>) =
     Inl (KeyError ''0.3.0'', ex_registry\<lparr>api_versions := Map.empty\<rparr>) \<and>
   Registry_init (ex_env\<lparr>fetch_events := \<lambda>c. Inr ([] @ ex_new_vault # [ex_release])\<rparr>) =
     Inl (KeyError ''0.3.0'')"
proof -
  note t = release_before_vault [OF ex_new_vault_fields ex_release_fields]
  have c: "Contract ex_env ''templateX'' = Inr ex_template"
    and s: "symbol ex_env (from_abi (''Vault v'' @ ''0.3.0'') ''vaultY'' (abi ex_template)) = Inr ''yvDAI''"
    by (simp_all add: ex_env_def)
  from t [of ex_env "new_registry ex_registry_contract []"] c s
  have a: "\<exists>self'. process_events ex_env [ex_release, ex_new_vault]
              (new_registry ex_registry_contract []) = Inr self'"
    by blast
  have e: "process_events env [] self = Inr self" for env self by simp
  have m: "vaults (new_registry ex_registry_contract evts) ''vaultY'' = None"
    "api_versions (new_registry ex_registry_contract evts) ''0.3.0'' = None" for evts
    by (simp_all add: new_registry_def)
  from t [of ex_env "new_registry ex_registry_contract []" "[]" "[ex_release]"] e m
  have b: "process_events ex_env ([] @ ex_new_vault # [ex_release])
      (new_registry ex_registry_contract []) =
     Inl (KeyError ''0.3.0'', new_registry ex_registry_contract [])"
    by blast
  let ?reg = "ex_registry\<lparr>api_versions := Map.empty\<rparr>"
  have m': "vaults ?reg ''vaultY'' = None" "api_versions ?reg ''0.3.0'' = None"
    "last_block ?reg = Some 100"
    by (simp_all add: ex_registry_def)
  from t [of ex_env ?reg "[]" "[]" 150] e m' ex_logs_100_150 [of Map.empty] ex_decode_100_150
  have w: "watch_step ex_env 150 ?reg = Inl (KeyError ''0.3.0'', ?reg)"
    by blast
  let ?env = "ex_env\<lparr>fetch_events := \<lambda>c. Inr ([] @ ex_new_vault # [ex_release])\<rparr>"
  have r: "resolve ?env ''v2.registry.ychad.eth'' = Inr ''registry''"
    and c': "Contract ?env ''registry'' = Inr ex_registry_contract"
    and f: "fetch_events ?env ex_registry_contract = Inr ([] @ ex_new_vault # [ex_release])"
    by (simp_all add: ex_env_def)
  from t [of ?env "new_registry ex_registry_contract ([] @ ex_new_vault # [ex_release])" "[]"
      "[ex_release]"] e m r c' f
  have i: "Registry_init ?env = Inl (KeyError ''0.3.0'')"
    by blast
  from a b w i show ?thesis by blast
qed

subsection \<open>The cursor of the watch loop\<close>

text \<open>
  C8. When an event of the batch of one iteration of \<open>watch_events\<close> raises UnknownEvent
  (its name is unknown) or KeyError for a missing release (a creation event for a new
  address whose version is not a key of \<open>api_versions\<close>), the iteration raises that
  exception in the state reached by the events before it: no later event of the batch is
  applied, the loop ends, and \<open>last_block\<close> still has the value it had before the
  iteration.
\<close>

theorem batch_error_keeps_cursor:
  assumes "last_block self = Some l"
    and "get_logs env (contract_address (registry_contract self)) (l + 1) block = Inr logs"
    and "decode_logs env logs = pre @ evt # post"
    and "process_events env pre self = Inr self1"
    and "name evt \<notin> {''NewGovernance'', ''NewRelease'', ''NewVault'',
                        ''NewExperimentalVault'', ''VaultTagged''} \<or>
         name evt \<in> {''NewVault'', ''NewExperimentalVault''} \<and>
         args evt ''vault'' = Some a \<and> args evt ''api_version'' = Some v \<and>
         vaults self1 a = None \<and> api_versions self1 v = None"
  shows "watch_step env block self =
           Inl (if name evt \<in> {''NewVault'', ''NewExperimentalVault''} then KeyError v
                else UnknownEvent (name evt), self1) \<and>
         watch_events env (block # blocks) self =
           Inl (if name evt \<in> {''NewVault'', ''NewExperimentalVault''} then KeyError v
                else UnknownEvent (name evt), self1) \<and>
         last_block self1 = Some l"
proof -
  let ?e = "if name evt \<in> {''NewVault'', ''NewExperimentalVault''} then KeyError v
            else UnknownEvent (name evt)"
  have "process_event env evt self1 = Inl (?e, self1)"
    using assms(5)
  proof
    assume u: "name evt \<notin> {''NewGovernance'', ''NewRelease'', ''NewVault'',
                        ''NewExperimentalVault'', ''VaultTagged''}"
    then have "name evt \<notin> {''NewVault'', ''NewExperimentalVault''}" by simp
    with process_event_unknown [OF u] show ?thesis by simp
  next
    assume m: "name evt \<in> {''NewVault'', ''NewExperimentalVault''} \<and>
         args evt ''vault'' = Some a \<and> args evt ''api_version'' = Some v \<and>
         vaults self1 a = None \<and> api_versions self1 v = None"
    then have "process_event env evt self1 = Inl (KeyError v, self1)"
      using process_event_missing_release [of evt a v self1 env] by blast
    with m show ?thesis by simp
  qed
  from process_events_halt [OF assms(4) this]
  have "process_events env (decode_logs env logs) self = Inl (?e, self1)"
    by (simp add: assms(3))
  from watch_step_raise [OF assms(1,2) this]
  have w: "watch_step env block self = Inl (?e, self1)" .
  then have ws: "watch_events env (block # blocks) self = Inl (?e, self1)" by simp
  from process_events_last_block [OF assms(4)] assms(1)
  have "last_block self1 = Some l" by simp
  with w ws show ?thesis by blast
qed

theorem batch_error_keeps_cursor_witness:
  "watch_step ex_env 160 ex_registry = Inl (UnknownEvent ''Transfer'', ex_registry_vault) \<and>
   watch_events ex_env [160, 170] ex_registry = Inl (UnknownEvent ''Transfer'', ex_registry_vault) \<and>
   last_block ex_registry_vault = Some 100 \<and>
   watch_step ex_env 150 (ex_registry\<lparr>api_versions := Map.empty\<rparr>) =
     Inl (KeyError ''0.3.0'', ex_registry\<lparr>api_versions := Map.empty\<rparr>)"
proof -
  from batch_error_keeps_cursor [OF ex_registry_cursor ex_logs_100_160 ex_decode_100_160
      ex_new_vault_applied, of a v "[170]"] ex_unknown_not_known
  have u: "watch_step ex_env 160 ex_registry = Inl (UnknownEvent ''Transfer'', ex_registry_vault) \<and>
     watch_events ex_env [160, 170] ex_registry = Inl (UnknownEvent ''Transfer'', ex_registry_vault) \<and>
     last_block ex_registry_vault = Some 100" for a v
    by (simp add: ex_unknown_name)
  let ?reg = "ex_registry\<lparr>api_versions := Map.empty\<rparr>"
  have m: "vaults ?reg ''vaultY'' = None" "api_versions ?reg ''0.3.0'' = None"
    and l: "last_block ?reg = Some 100"
    by (simp_all add: ex_registry_def)
  have e: "process_events ex_env [] ?reg = Inr ?reg" by simp
  from batch_error_keeps_cursor [OF l ex_logs_100_150 [of Map.empty] ex_decode_100_150 e,
      of "''vaultY''" "''0.3.0''"] ex_new_vault_fields m
  have k: "watch_step ex_env 150 ?reg = Inl (KeyError ''0.3.0'', ?reg)"
    by simp
  from u k show ?thesis by blast
qed

text \<open>
  C3. For a block number \<open>h\<close> that the watch loop receives with the cursor at \<open>l\<close>, the
  iteration asks for the logs of the registry contract from block \<open>l + 1\<close> to block \<open>h\<close>,
  both included: these are the logs of the chain at that address with a block number in
  \<open>(l, h]\<close>. When they apply, the iteration ends in the state they lead to with
  \<open>last_block = h\<close>, however many they are; with no log in the range nothing but the
  cursor changes.
\<close>

theorem watch_step_range:
  assumes "get_logs env = chain_get_logs chain"
    and "last_block self = Some l"
  shows "watch_step env h self =
           (case process_events env
                   (decode_logs env
                      (filter (\<lambda>x. log_address x = contract_address (registry_contract self) \<and>
                                    l < log_block x \<and> log_block x \<le> h) chain))
                   self of
              Inl x \<Rightarrow> Inl x
            | Inr self' \<Rightarrow> Inr (self'\<lparr>last_block := Some h\<rparr>)) \<and>
         (\<forall>self'. process_events env
                   (decode_logs env
                      (filter (\<lambda>x. log_address x = contract_address (registry_contract self) \<and>
                                    l < log_block x \<and> log_block x \<le> h) chain))
                   self = Inr self' \<longrightarrow>
            watch_step env h self = Inr (self'\<lparr>last_block := Some h\<rparr>) \<and>
            last_block (self'\<lparr>last_block := Some h\<rparr>) = Some h) \<and>
         (filter (\<lambda>x. log_address x = contract_address (registry_contract self) \<and>
                       l < log_block x \<and> log_block x \<le> h) chain = [] \<longrightarrow>
          watch_step env h self = Inr (self\<lparr>last_block := Some h\<rparr>))"
proof -
  let ?range = "filter (\<lambda>x. log_address x = contract_address (registry_contract self) \<and>
                            l < log_block x \<and> log_block x \<le> h) chain"
  have "(l + 1 \<le> b) = (l < b)" for b :: int by arith
  then have g: "get_logs env (contract_address (registry_contract self)) (l + 1) h = Inr ?range"
    by (simp add: assms(1) chain_get_logs_def)
  have w: "watch_step env h self =
      (case process_events env (decode_logs env ?range) self of
         Inl x \<Rightarrow> Inl x
       | Inr self' \<Rightarrow> Inr (self'\<lparr>last_block := Some h\<rparr>))"
    by (simp add: watch_step_def assms(2) g)
  have r: "watch_step env h self = Inr (self'\<lparr>last_block := Some h\<rparr>)"
    if "process_events env (decode_logs env ?range) self = Inr self'" for self'
    using w that by simp
  have z: "watch_step env h self = Inr (self\<lparr>last_block := Some h\<rparr>)" if "?range = []"
    using w that by (simp add: decode_logs_def)
  from w r z show ?thesis by simp
qed

theorem watch_step_range_witness:
  "watch_step ex_env 150 ex_registry = Inr (ex_registry_vault\<lparr>last_block := Some 150\<rparr>) \<and>
   last_block (ex_registry_vault\<lparr>last_block := Some 150\<rparr>) = Some 150 \<and>
   watch_step ex_env 110 ex_registry = Inr (ex_registry\<lparr>last_block := Some 110\<rparr>)"
proof -
  have g: "get_logs ex_env = chain_get_logs ex_chain" by (simp add: ex_env_def)
  have r1: "filter (\<lambda>x. log_address x = contract_address (registry_contract ex_registry) \<and>
                        100 < log_block x \<and> log_block x \<le> 150) ex_chain =
            [\<lparr>log_address = ''registry'', log_block = 120, log_data = ''NewVault''\<rparr>]"
    by (simp add: ex_defs)
  have r2: "filter (\<lambda>x. log_address x = contract_address (registry_contract ex_registry) \<and>
                        100 < log_block x \<and> log_block x \<le> 110) ex_chain = []"
    by (simp add: ex_defs)
  have p1: "process_events ex_env (decode_logs ex_env
      (filter (\<lambda>x. log_address x = contract_address (registry_contract ex_registry) \<and>
                        100 < log_block x \<and> log_block x \<le> 150) ex_chain)) ex_registry
      = Inr ex_registry_vault"
    using ex_new_vault_applied by (simp only: r1 ex_decode_100_150 append_Nil)
  from watch_step_range [OF g ex_registry_cursor, of 150] p1
  have a: "watch_step ex_env 150 ex_registry = Inr (ex_registry_vault\<lparr>last_block := Some 150\<rparr>)"
    by blast
  from watch_step_range [OF g ex_registry_cursor, of 110] r2
  have b: "watch_step ex_env 110 ex_registry = Inr (ex_registry\<lparr>last_block := Some 110\<rparr>)"
    by blast
  from a b show ?thesis by simp
qed

subsection \<open>The display name of a vault\<close>

text \<open>
  C1, as amended. A creation event (NewVault or NewExperimentalVault) for an address that
  is not yet a key of \<open>vaults\<close>, whose version is a key of \<open>api_versions\<close>, stores under
  that address the contract built from the ABI of the release, and the display name
  \<open>symbol\<close>, one space, \<open>api_version\<close>: the f-string of \<open>process_events\<close> is
  \<open>f'{vault.symbol()} {evt["api_version"]}'\<close>. The letter v is part of the name of the
  contract handle (\<open>'Vault v' + api_version\<close>), not of the display name.
\<close>

theorem vault_display_name:
  assumes "name evt \<in> {''NewVault'', ''NewExperimentalVault''}"
    and "args evt ''vault'' = Some a" and "args evt ''api_version'' = Some v"
    and "vaults self a = None" and "api_versions self v = Some template"
    and "symbol env (from_abi (''Vault v'' @ v) a (abi template)) = Inr s"
  shows "\<exists>self'. process_events env [evt] self = Inr self' \<and>
           vaults self' a = Some (from_abi (''Vault v'' @ v) a (abi template)) \<and>
           names self' a = Some (s @ '' '' @ v)"
  using process_event_new_vault [OF assms] by simp

theorem vault_display_name_witness:
  "\<exists>self'. process_events ex_env [ex_new_vault] ex_registry = Inr self' \<and>
     vaults self' ''vaultY'' = Some (from_abi ''Vault v0.3.0'' ''vaultY'' ex_abi) \<and>
     names self' ''vaultY'' = Some ''yvDAI 0.3.0''"
proof -
  have m: "vaults ex_registry ''vaultY'' = None"
    "api_versions ex_registry ''0.3.0'' = Some ex_template"
    by (simp_all add: ex_registry_def)
  have s: "symbol ex_env (from_abi (''Vault v'' @ ''0.3.0'') ''vaultY'' (abi ex_template)) = Inr ''yvDAI''"
    by (simp add: ex_env_def)
  from vault_display_name [OF ex_new_vault_fields m s] show ?thesis
    by (simp add: ex_template_def)
qed

text \<open>
  \<open>get_vaults\<close> builds the name of a vault in the same way:
  \<open>f'{name} {vault["api_version"]}'\<close>, the symbol, one space, the version.
\<close>

lemma vault_names_format:
  "vault_names xs = Inr ns \<Longrightarrow>
   list_all2 (\<lambda>(x, n) r. \<exists>v. args x ''api_version'' = Some v \<and> r = n @ '' '' @ v) xs ns"
proof (induction xs arbitrary: ns)
  case Nil
  then show ?case by simp
next
  case (Cons a xs)
  obtain x n where a: "a = (x, n)" by (cases a)
  from Cons.prems obtain v ns' where "args x ''api_version'' = Some v"
      and "vault_names xs = Inr ns'" and "ns = (n @ '' '' @ v) # ns'"
    by (auto simp: a getitem_def split: sum.splits option.splits)
  with Cons.IH [of ns'] show ?case by (simp add: a)
qed

text \<open>
  C1 as stated fails: for the symbol yvDAI and the version 0.3.0 the name stored is
  \<open>yvDAI 0.3.0\<close>, not \<open>yvDAI v0.3.0\<close>.
\<close>

theorem vault_display_name_counterexample:
  "name ex_new_vault = ''NewVault'' \<and>
   args ex_new_vault ''api_version'' = Some ''0.3.0'' \<and>
   args ex_new_vault ''vault'' = Some ''vaultY'' \<and>
   api_versions ex_registry ''0.3.0'' = Some ex_template \<and>
   vaults ex_registry ''vaultY'' = None \<and>
   symbol ex_env ex_vault_contract = Inr ''yvDAI'' \<and>
   process_events ex_env [ex_new_vault] ex_registry = Inr ex_registry_vault \<and>
   vaults ex_registry_vault ''vaultY'' = Some ex_vault_contract \<and>
   names ex_registry_vault ''vaultY'' = Some ''yvDAI 0.3.0'' \<and>
   names ex_registry_vault ''vaultY'' \<noteq> Some (''yvDAI'' @ '' v'' @ ''0.3.0'')"
  using ex_new_vault_applied
  by (simp add: ex_new_vault_def mk_event_def ex_registry_def ex_registry_vault_def ex_env_def)

section \<open>Properties of describe\<close>

subsection \<open>Evaluating the float operations\<close>

lemma bitlen_pos: "0 < n \<Longrightarrow> bitlen n = 1 + bitlen (n div 2)"
  by (subst bitlen.simps) simp

lemma bitlen_nonpos: "n \<le> 0 \<Longrightarrow> bitlen n = 0"
  by (subst bitlen.simps) simp

lemma bitlen_1: "bitlen 1 = 1"
  by (simp add: bitlen_pos bitlen_nonpos)

lemma bitlen_5: "bitlen 5 = 3"
  by (simp add: bitlen_pos bitlen_nonpos)

lemma bitlen_10: "bitlen 10 = 4"
  by (simp add: bitlen_pos bitlen_nonpos)

lemma bitlen_pow2: "bitlen (2 ^ n) = int n + 1"
proof (induction n)
  case 0
  show ?case by (simp add: bitlen_pos bitlen_nonpos)
next
  case (Suc n)
  have "bitlen (2 ^ Suc n) = 1 + bitlen (2 ^ Suc n div 2)"
    by (rule bitlen_pos) simp
  with Suc show ?case by simp
qed

lemma floor_log2_5: "floor_log2 5 1 = 2"
  by (simp add: floor_log2_def bitlen_5 bitlen_1)

lemma round_div_5: "round_div 5 1 = 5"
  by (simp add: round_div_def floor_log2_5 pow2_def)

lemma round_rat_5: "round_rat 5 = Finite 5"
  by (simp add: round_rat_def round_div_5)

lemma truediv_example: "truediv 5000000 (10 ^ 6) = Inr (Finite 5)"
proof -
  have "(of_int 5000000 :: rat) / of_int (10 ^ 6) = 5" by simp
  then show ?thesis by (simp add: truediv_def round_rat_5)
qed

lemma floor_log2_10: "floor_log2 10 1 = 3"
  by (simp add: floor_log2_def bitlen_10 bitlen_1)

lemma round_div_10: "round_div 10 1 = 10"
  by (simp add: round_div_def floor_log2_10 pow2_def)

lemma round_rat_10: "round_rat 10 = Finite 10"
  by (simp add: round_rat_def round_div_10)

lemma floor_log2_overflow: "floor_log2 (2 ^ 1024) 1 = 1024"
  using bitlen_pow2 [of 1024] by (simp add: floor_log2_def bitlen_1)

lemma round_div_overflow: "round_div (2 ^ 1024) 1 = 2 ^ 1024"
  using floor_log2_overflow by (simp add: round_div_def pow2_def)

lemma round_rat_overflow: "round_rat (2 ^ 1024) = PosInf"
  using round_div_overflow by (simp add: round_rat_def)

lemma truediv_overflow: "truediv (2 ^ 1024) 1 = Inl OverflowError"
  using round_rat_overflow by (simp add: truediv_def)

lemma truediv_error: "truediv a b = Inl e \<Longrightarrow> e = OverflowError"
  by (auto simp: truediv_def split: pyfloat.splits)

subsection \<open>The scaling loop and the strategies loop\<close>

lemma scale_views_error: "scale_views scale xs = Inl e \<Longrightarrow> e = OverflowError"
proof (induction xs)
  case Nil
  then show ?case by simp
next
  case (Cons x xs)
  obtain n v where x: "x = (n, v)" by (cases x)
  from Cons show ?case
    by (auto simp: x split: if_splits sum.splits dest: truediv_error)
qed

lemma scale_views_none:
  "scale_views scale xs = Inr ys \<Longrightarrow> map_of xs n = None \<Longrightarrow> map_of ys n = None"
proof (induction xs arbitrary: ys)
  case Nil
  then show ?case by simp
next
  case (Cons x xs)
  obtain k v where x: "x = (k, v)" by (cases x)
  from Cons.prems show ?case
    by (auto simp: x split: if_splits sum.splits dest: Cons.IH)
qed

lemma scale_views_unscaled:
  "scale_views scale xs = Inr ys \<Longrightarrow> map_of xs n = Some raw \<Longrightarrow>
   n \<notin> set VAULT_VIEWS_SCALED \<Longrightarrow> map_of ys n = Some (PyInt raw)"
proof (induction xs arbitrary: ys)
  case Nil
  then show ?case by simp
next
  case (Cons x xs)
  obtain k v where x: "x = (k, v)" by (cases x)
  from Cons.prems show ?case
    by (auto simp: x split: if_splits sum.splits dest: Cons.IH)
qed

lemma scale_views_scaled:
  "scale_views scale xs = Inr ys \<Longrightarrow> map_of xs n = Some raw \<Longrightarrow>
   n \<in> set VAULT_VIEWS_SCALED \<Longrightarrow>
   \<exists>f. truediv raw scale = Inr f \<and> map_of ys n = Some (PyFloat f)"
proof (induction xs arbitrary: ys)
  case Nil
  then show ?case by simp
next
  case (Cons x xs)
  obtain k v where x: "x = (k, v)" by (cases x)
  from Cons.prems show ?case
    by (auto simp: x split: if_splits sum.splits dest: Cons.IH)
qed

lemma scaled_not_reserved:
  "n \<in> set VAULT_VIEWS_SCALED \<Longrightarrow> n \<notin> {''strategies'', ''token price'', ''tvl''}"
  by (auto simp: VAULT_VIEWS_SCALED_def)

lemma describe_views_return:
  assumes "fetch_multicall env (map (\<lambda>view. (vault self, view)) (views self)) = Inr results"
    and "describe_try env self scale = Inr info"
  shows "\<exists>sv. scale_views scale (AList.updates (views self) results []) = Inr sv \<and>
              info = AList.update ''strategies'' (PyDict []) sv"
proof (cases "scale_views scale (AList.updates (views self) results [])")
  case (Inl e)
  then have "e = OverflowError" by (rule scale_views_error)
  with Inl assms show ?thesis by (simp add: describe_try_def describe_views_def)
next
  case (Inr sv)
  with assms show ?thesis by (simp add: describe_try_def describe_views_def)
qed

lemma describe_views_raise:
  assumes "fetch_multicall env (map (\<lambda>view. (vault self, view)) (views self)) = Inl e \<or>
           (\<exists>results. fetch_multicall env (map (\<lambda>view. (vault self, view)) (views self)) = Inr results \<and>
              scale_views scale (AList.updates (views self) results []) = Inl e)"
  shows "describe_views env self scale = Inl e"
  using assms by (auto simp: describe_views_def)

lemma describe_return:
  assumes "describe env self = Inr result"
  shows "\<exists>d info sd t p.
           decimals env (vault self) = Inr d \<and>
           describe_try env self (10 ^ d) = Inr info \<and>
           describe_strategies env (strategies self) [] = Inr sd \<and>
           token env (vault self) = Inr t \<and> token_price env t = Inr p \<and>
           (\<forall>n. n \<notin> {''strategies'', ''token price'', ''tvl''} \<longrightarrow> map_of result n = map_of info n)"
  using assms
  by (auto simp: describe_def Let_def AList.update_conv'
      split: sum.splits option.splits)

lemma describe_degraded:
  assumes "decimals env (vault self) = Inr d"
    and "fetch_multicall env (map (\<lambda>view. (vault self, view)) (views self)) = Inl (ValueError m)"
    and "describe_strategies env (strategies self) [] = Inr sd"
    and "token env (vault self) = Inr t" and "token_price env t = Inr p"
  shows "describe env self = Inr [(''strategies'', PyDict sd), (''token price'', PyFloat p)]"
proof -
  have "describe_views env self (10 ^ d) = Inl (ValueError m)"
    using assms(2) by (simp add: describe_views_def)
  then have "describe_try env self (10 ^ d) = Inr [(''strategies'', PyDict [])]"
    by (simp add: describe_try_def)
  with assms(1,3,4,5) show ?thesis by (simp add: describe_def)
qed

lemma describe_strategies_return:
  assumes "\<forall>s\<in>set ss. \<exists>v. strategy_describe env s = Inr v"
  shows "\<exists>sd. describe_strategies env ss d = Inr sd \<and>
           (\<forall>n. map_of sd n =
              (case filter (\<lambda>s. strategy_name s = n) ss of
                 [] \<Rightarrow> map_of d n
               | fs \<Rightarrow> Some (projr (strategy_describe env (last fs)))))"
  using assms
proof (induction ss arbitrary: d)
  case Nil
  then show ?case by simp
next
  case (Cons strat strats)
  then obtain v where v: "strategy_describe env strat = Inr v" by auto
  from Cons.prems have "\<forall>s\<in>set strats. \<exists>v. strategy_describe env s = Inr v" by simp
  from Cons.IH [OF this, of "AList.update (strategy_name strat) v d"]
  obtain sd where sd: "describe_strategies env strats (AList.update (strategy_name strat) v d) = Inr sd"
    and look: "\<And>n. map_of sd n =
              (case filter (\<lambda>s. strategy_name s = n) strats of
                 [] \<Rightarrow> map_of (AList.update (strategy_name strat) v d) n
               | fs \<Rightarrow> Some (projr (strategy_describe env (last fs))))"
    by blast
  have "map_of sd n =
      (case filter (\<lambda>s. strategy_name s = n) (strat # strats) of
         [] \<Rightarrow> map_of d n
       | fs \<Rightarrow> Some (projr (strategy_describe env (last fs))))" for n
    using look [of n] v by (auto simp: AList.update_conv' split: list.splits)
  with sd v show ?case by simp
qed

lemma filter_distinct_name:
  "distinct (map f xs) \<Longrightarrow> x \<in> set xs \<Longrightarrow> filter (\<lambda>y. f y = f x) xs = [x]"
proof (induction xs)
  case Nil
  then show ?case by simp
next
  case (Cons a xs)
  show ?case
  proof (cases "a = x")
    case True
    with Cons.prems(1) have "\<forall>y\<in>set xs. f y \<noteq> f x"
      by (auto simp: image_iff)
    then have "filter (\<lambda>y. f y = f x) xs = []"
      by (simp add: filter_empty_conv)
    with True show ?thesis by simp
  next
    case False
    with Cons.prems have "x \<in> set xs" "f a \<noteq> f x" by auto
    with Cons show ?thesis by simp
  qed
qed

text \<open>The example vault in the example environments.\<close>

lemma ex_vault_views:
  "new_VaultV2 ''yvDAI 0.3.0'' ''0.3.0'' ex_vault_contract [ex_strategy] = Inr ex_vault"
  "new_VaultV2 ''yvDAI 0.3.1'' ''0.3.1'' (from_abi ''Vault v0.3.1'' ''vaultZ'' ex_abi_tvl) [] =
     Inr ex_vault_tvl"
  by (simp_all add: new_VaultV2_def ex_vault_def ex_vault_tvl_def ex_vault_contract_def
      from_abi_def ex_abi_def ex_abi_tvl_def)

lemma ex_calls: "map (\<lambda>view. (vault ex_vault, view)) (views ex_vault) =
    [(ex_vault_contract, ''totalAssets''), (ex_vault_contract, ''activation'')]"
  by (simp add: ex_vault_def)

lemma ex_describe: "describe ex_env ex_vault = Inr ex_snapshot"
proof -
  have t: "truediv 5000000 1000000 = Inr (Finite 5)"
    using truediv_example by simp
  have v: "describe_try ex_env ex_vault 1000000 =
      Inr [(''totalAssets'', PyFloat (Finite 5)), (''activation'', PyInt 1600000000),
           (''strategies'', PyDict [])]"
    by (simp add: describe_try_def describe_views_def ex_env_def ex_vault_def t
        VAULT_VIEWS_SCALED_def)
  have s: "describe_strategies ex_env (strategies ex_vault) [] =
      Inr [(''StrategyA'', PyDict [(''debt'', PyInt 1)])]"
    by (simp add: ex_env_def ex_vault_def ex_strategy_def)
  have d: "decimals ex_env (vault ex_vault) = Inr 6" "token ex_env (vault ex_vault) = Inr ''dai''"
    "token_price ex_env ''dai'' = Inr (Finite 2)"
    by (simp_all add: ex_env_def)
  show ?thesis
    by (simp add: describe_def d v s round_rat_10 ex_snapshot_def)
qed

lemma ex_value_error_calls:
  "fetch_multicall ex_env_value_error calls = Inl (ValueError ''insufficient data'')"
  "decimals ex_env_value_error (vault ex_vault) = Inr 6"
  "token ex_env_value_error (vault ex_vault) = Inr ''dai''"
  "token_price ex_env_value_error ''dai'' = Inr (Finite 2)"
  "strategy_describe ex_env_value_error s = Inr (PyDict [(''debt'', PyInt 1)])"
  by (simp_all add: ex_env_value_error_def ex_env_def)

lemma ex_other_error_calls:
  "fetch_multicall ex_env_other_error calls = Inl (OtherError ''ConnectionError'')"
  "decimals ex_env_other_error (vault ex_vault) = Inr 6"
  by (simp_all add: ex_env_other_error_def ex_env_def)

lemma ex_value_error_strategies:
  "describe_strategies ex_env_value_error (strategies ex_vault) [] =
     Inr [(''StrategyA'', PyDict [(''debt'', PyInt 1)])]"
  by (simp add: ex_value_error_calls ex_vault_def ex_strategy_def)

subsection \<open>Scaled and unscaled views\<close>

text \<open>
  C7, as amended. When the multicall returns and \<open>describe\<close> returns, the value
  reported under the name of a fetched view is the raw value divided by
  \<open>10 ** decimals\<close> (as a float, the rounded quotient) when the name is in
  \<open>VAULT_VIEWS_SCALED\<close>, and the raw int when it is not in that list and is none of
  \<open>strategies\<close>, \<open>token price\<close> and \<open>tvl\<close>: these are the keys that \<open>describe\<close>
  writes itself, after the views. The raw value of a name is what
  \<open>dict(zip(self._views, results))\<close> holds under it. With \<open>decimals() = 6\<close> and a raw
  \<open>totalAssets\<close> of 5000000 the value reported is the float 5.0.
\<close>

theorem describe_scaling:
  assumes "decimals env (vault self) = Inr d"
    and "fetch_multicall env (map (\<lambda>view. (vault self, view)) (views self)) = Inr results"
    and "describe env self = Inr info"
    and "(Map.empty(views self [\<mapsto>] results)) n = Some raw"
  shows "(n \<in> set VAULT_VIEWS_SCALED \<longrightarrow>
            (\<exists>f. truediv raw (10 ^ d) = Inr f \<and> map_of info n = Some (PyFloat f))) \<and>
         (n \<notin> set VAULT_VIEWS_SCALED \<longrightarrow> n \<notin> {''strategies'', ''token price'', ''tvl''} \<longrightarrow>
            map_of info n = Some (PyInt raw)) \<and>
         (n = ''totalAssets'' \<longrightarrow> d = 6 \<longrightarrow> raw = 5000000 \<longrightarrow>
            map_of info ''totalAssets'' = Some (PyFloat (Finite 5)))"
proof -
  from describe_return [OF assms(3)] assms(1)
  obtain info0 where tr: "describe_try env self (10 ^ d) = Inr info0"
    and same: "\<And>k. k \<notin> {''strategies'', ''token price'', ''tvl''} \<Longrightarrow> map_of info k = map_of info0 k"
    by auto
  from describe_views_return [OF assms(2) tr]
  obtain sv where sv: "scale_views (10 ^ d) (AList.updates (views self) results []) = Inr sv"
    and info0: "info0 = AList.update ''strategies'' (PyDict []) sv"
    by blast
  have fetched: "map_of (AList.updates (views self) results []) n = Some raw"
    using assms(4) by (simp add: AList.updates_conv')
  have scaled: "\<exists>f. truediv raw (10 ^ d) = Inr f \<and> map_of info n = Some (PyFloat f)"
    if n: "n \<in> set VAULT_VIEWS_SCALED"
  proof -
    from scaled_not_reserved [OF n] have r: "n \<notin> {''strategies'', ''token price'', ''tvl''}" .
    from scale_views_scaled [OF sv fetched n] obtain f
      where f: "truediv raw (10 ^ d) = Inr f" "map_of sv n = Some (PyFloat f)" by blast
    from same [OF r] r f(2) have "map_of info n = Some (PyFloat f)"
      by (simp add: info0 AList.update_conv')
    with f(1) show ?thesis by blast
  qed
  have unscaled: "map_of info n = Some (PyInt raw)"
    if n: "n \<notin> set VAULT_VIEWS_SCALED" and r: "n \<notin> {''strategies'', ''token price'', ''tvl''}"
    using same [OF r] r scale_views_unscaled [OF sv fetched n]
    by (simp add: info0 AList.update_conv')
  have example: "map_of info ''totalAssets'' = Some (PyFloat (Finite 5))"
    if "n = ''totalAssets''" "d = 6" "raw = 5000000"
  proof -
    have "n \<in> set VAULT_VIEWS_SCALED" using that(1) by (simp add: VAULT_VIEWS_SCALED_def)
    from scaled [OF this] that truediv_example show ?thesis by auto
  qed
  from scaled unscaled example show ?thesis by blast
qed

theorem describe_scaling_witness:
  "describe ex_env ex_vault = Inr ex_snapshot \<and>
   map_of ex_snapshot ''totalAssets'' = Some (PyFloat (Finite 5)) \<and>
   map_of ex_snapshot ''activation'' = Some (PyInt 1600000000)"
proof -
  have d: "decimals ex_env (vault ex_vault) = Inr 6"
    and f: "fetch_multicall ex_env (map (\<lambda>view. (vault ex_vault, view)) (views ex_vault)) =
      Inr [5000000, 1600000000]"
    by (simp_all add: ex_env_def)
  have r1: "(Map.empty(views ex_vault [\<mapsto>] [5000000, 1600000000 :: int])) ''totalAssets'' =
      Some 5000000"
    and r2: "(Map.empty(views ex_vault [\<mapsto>] [5000000, 1600000000 :: int])) ''activation'' =
      Some 1600000000"
    by (simp_all add: ex_vault_def)
  from describe_scaling [OF d f ex_describe r1]
  have a: "map_of ex_snapshot ''totalAssets'' = Some (PyFloat (Finite 5))" by simp
  from describe_scaling [OF d f ex_describe r2]
  have b: "map_of ex_snapshot ''activation'' = Some (PyInt 1600000000)"
    by (simp add: VAULT_VIEWS_SCALED_def)
  from a b ex_describe show ?thesis by simp
qed

text \<open>
  C7 as stated fails for a numeric view that has the name of a key of \<open>describe\<close>: a
  view \<open>tvl\<close> that returns 7 is not in the scaled list, and what is reported under
  \<open>tvl\<close> is the product of the price and the total assets, not 7.
\<close>

theorem describe_scaling_counterexample:
  "views ex_vault_tvl = [''totalAssets'', ''tvl''] \<and>
   decimals ex_env_tvl (vault ex_vault_tvl) = Inr 6 \<and>
   fetch_multicall ex_env_tvl
     [(vault ex_vault_tvl, ''totalAssets''), (vault ex_vault_tvl, ''tvl'')] = Inr [5000000, 7] \<and>
   ''tvl'' \<notin> set VAULT_VIEWS_SCALED \<and>
   describe ex_env_tvl ex_vault_tvl = Inr ex_snapshot_tvl \<and>
   map_of ex_snapshot_tvl ''tvl'' = Some (PyFloat (Finite 10)) \<and>
   map_of ex_snapshot_tvl ''tvl'' \<noteq> Some (PyInt 7)"
proof -
  have t: "truediv 5000000 1000000 = Inr (Finite 5)"
    using truediv_example by simp
  have v: "describe_try ex_env_tvl ex_vault_tvl 1000000 =
      Inr [(''totalAssets'', PyFloat (Finite 5)), (''tvl'', PyInt 7), (''strategies'', PyDict [])]"
    by (simp add: describe_try_def describe_views_def ex_env_tvl_def ex_env_def ex_vault_tvl_def t
        VAULT_VIEWS_SCALED_def)
  have d: "decimals ex_env_tvl (vault ex_vault_tvl) = Inr 6"
    "token ex_env_tvl (vault ex_vault_tvl) = Inr ''dai''"
    "token_price ex_env_tvl ''dai'' = Inr (Finite 2)"
    "fetch_multicall ex_env_tvl calls = Inr [5000000, 7]" for calls
    by (simp_all add: ex_env_tvl_def ex_env_def)
  have s: "describe_strategies ex_env_tvl (strategies ex_vault_tvl) [] = Inr []"
    by (simp add: ex_vault_tvl_def)
  have r: "describe ex_env_tvl ex_vault_tvl = Inr ex_snapshot_tvl"
    by (simp add: describe_def d v s round_rat_10 ex_snapshot_tvl_def)
  have w: "views ex_vault_tvl = [''totalAssets'', ''tvl'']"
    by (simp add: ex_vault_tvl_def)
  from r d w show ?thesis
    by (simp add: ex_snapshot_tvl_def VAULT_VIEWS_SCALED_def)
qed

subsection \<open>The multicall fails\<close>

text \<open>
  C2, as amended. When the multicall raises a ValueError, and the calls outside the
  \<open>try\<close> return (\<open>decimals()\<close>, the \<open>describe()\<close> of each strategy, \<open>token()\<close> and
  the price), \<open>describe\<close> returns a dict with exactly two keys: \<open>strategies\<close> and
  \<open>token price\<close>. The price is added after the \<open>try\<close>, on both paths.
\<close>

theorem describe_degraded_keys:
  assumes "decimals env (vault self) = Inr d"
    and "fetch_multicall env (map (\<lambda>view. (vault self, view)) (views self)) = Inl (ValueError m)"
    and "describe_strategies env (strategies self) [] = Inr sd"
    and "token env (vault self) = Inr t" and "token_price env t = Inr p"
  shows "describe env self = Inr [(''strategies'', PyDict sd), (''token price'', PyFloat p)] \<and>
         map fst [(''strategies'', PyDict sd), (''token price'', PyFloat p)] =
           [''strategies'', ''token price'']"
  using describe_degraded [OF assms] by simp

theorem describe_degraded_keys_witness:
  "describe ex_env_value_error ex_vault = Inr ex_snapshot_degraded \<and>
   map fst ex_snapshot_degraded = [''strategies'', ''token price'']"
  using describe_degraded_keys [OF ex_value_error_calls(2) ex_value_error_calls(1)
      ex_value_error_strategies ex_value_error_calls(3,4)]
  by (simp add: ex_snapshot_degraded_def)

text \<open>
  C2 as stated fails: after a ValueError of the multicall the dict has the key
  \<open>token price\<close> besides \<open>strategies\<close>; and a failure of the multicall that is not a
  ValueError is raised to the caller.
\<close>

theorem describe_degraded_keys_counterexample:
  "fetch_multicall ex_env_value_error
     [(ex_vault_contract, ''totalAssets''), (ex_vault_contract, ''activation'')] =
     Inl (ValueError ''insufficient data'') \<and>
   describe ex_env_value_error ex_vault = Inr ex_snapshot_degraded \<and>
   map fst ex_snapshot_degraded = [''strategies'', ''token price''] \<and>
   map fst ex_snapshot_degraded \<noteq> [''strategies''] \<and>
   fetch_multicall ex_env_other_error
     [(ex_vault_contract, ''totalAssets''), (ex_vault_contract, ''activation'')] =
     Inl (OtherError ''ConnectionError'') \<and>
   describe ex_env_other_error ex_vault = Inl (OtherError ''ConnectionError'')"
proof -
  have "describe ex_env_value_error ex_vault = Inr ex_snapshot_degraded"
    using describe_degraded [OF ex_value_error_calls(2) ex_value_error_calls(1)
      ex_value_error_strategies ex_value_error_calls(3,4)]
    by (simp add: ex_snapshot_degraded_def)
  moreover have "describe ex_env_other_error ex_vault = Inl (OtherError ''ConnectionError'')"
    by (simp add: describe_def describe_try_def describe_views_def ex_other_error_calls)
  ultimately show ?thesis
    by (simp add: ex_value_error_calls ex_other_error_calls ex_snapshot_degraded_def)
qed

text \<open>
  C9, as amended. When the multicall raises a ValueError, and the calls outside the
  \<open>try\<close> return, \<open>describe\<close> returns a dict with a key \<open>strategies\<close>; the nested dict
  holds, under the name of each strategy, the output of \<open>describe()\<close> of the last strategy
  of that name, which is the strategy itself when the names are distinct. The dict has
  neither \<open>tvl\<close> nor \<open>totalAssets\<close>.
\<close>

theorem describe_degraded_strategies:
  assumes "decimals env (vault self) = Inr d"
    and "fetch_multicall env (map (\<lambda>view. (vault self, view)) (views self)) = Inl (ValueError m)"
    and "\<forall>s\<in>set (strategies self). \<exists>v. strategy_describe env s = Inr v"
    and "token env (vault self) = Inr t" and "token_price env t = Inr p"
  shows "\<exists>info sd. describe env self = Inr info \<and>
           map_of info ''strategies'' = Some (PyDict sd) \<and>
           (\<forall>s\<in>set (strategies self).
              map_of sd (strategy_name s) =
                Some (projr (strategy_describe env
                  (last (filter (\<lambda>s'. strategy_name s' = strategy_name s) (strategies self)))))) \<and>
           (distinct (map strategy_name (strategies self)) \<longrightarrow>
              (\<forall>s\<in>set (strategies self).
                 map_of sd (strategy_name s) = Some (projr (strategy_describe env s)))) \<and>
           map_of info ''tvl'' = None \<and> map_of info ''totalAssets'' = None"
proof -
  from describe_strategies_return [OF assms(3), of "[]"]
  obtain sd where sd: "describe_strategies env (strategies self) [] = Inr sd"
    and look: "\<And>n. map_of sd n =
              (case filter (\<lambda>s. strategy_name s = n) (strategies self) of
                 [] \<Rightarrow> map_of [] n
               | fs \<Rightarrow> Some (projr (strategy_describe env (last fs))))"
    by blast
  let ?info = "[(''strategies'', PyDict sd), (''token price'', PyFloat p)]"
  have r: "describe env self = Inr ?info"
    using describe_degraded [OF assms(1,2) sd assms(4,5)] .
  have each: "map_of sd (strategy_name s) =
      Some (projr (strategy_describe env
        (last (filter (\<lambda>s'. strategy_name s' = strategy_name s) (strategies self)))))"
    if "s \<in> set (strategies self)" for s
  proof -
    from that have "filter (\<lambda>s'. strategy_name s' = strategy_name s) (strategies self) \<noteq> []"
      by (auto simp: filter_empty_conv)
    with look [of "strategy_name s"] show ?thesis by (simp split: list.splits)
  qed
  have own: "map_of sd (strategy_name s) = Some (projr (strategy_describe env s))"
    if "distinct (map strategy_name (strategies self))" "s \<in> set (strategies self)" for s
    using each [OF that(2)] filter_distinct_name [OF that] by simp
  have "map_of ?info ''strategies'' = Some (PyDict sd)" "map_of ?info ''tvl'' = None"
    "map_of ?info ''totalAssets'' = None"
    by simp_all
  with r each own show ?thesis by blast
qed

theorem describe_degraded_strategies_witness:
  "describe ex_env_value_error ex_vault = Inr ex_snapshot_degraded \<and>
   map_of ex_snapshot_degraded ''strategies'' =
     Some (PyDict [(''StrategyA'', PyDict [(''debt'', PyInt 1)])]) \<and>
   strategy_describe ex_env_value_error ex_strategy = Inr (PyDict [(''debt'', PyInt 1)]) \<and>
   map_of ex_snapshot_degraded ''tvl'' = None \<and>
   map_of ex_snapshot_degraded ''totalAssets'' = None"
proof -
  have h: "\<forall>s\<in>set (strategies ex_vault). \<exists>v. strategy_describe ex_env_value_error s = Inr v"
    by (simp add: ex_value_error_calls)
  from describe_degraded_strategies [OF ex_value_error_calls(2) ex_value_error_calls(1) h
      ex_value_error_calls(3,4)]
  obtain info sd where "describe ex_env_value_error ex_vault = Inr info"
    and "map_of info ''strategies'' = Some (PyDict sd)"
    and "map_of info ''tvl'' = None" and "map_of info ''totalAssets'' = None"
    by blast
  moreover have "describe ex_env_value_error ex_vault = Inr ex_snapshot_degraded"
    using describe_degraded [OF ex_value_error_calls(2) ex_value_error_calls(1)
      ex_value_error_strategies ex_value_error_calls(3,4)]
    by (simp add: ex_snapshot_degraded_def)
  ultimately show ?thesis
    by (auto simp: ex_value_error_calls ex_snapshot_degraded_def)
qed

text \<open>
  C9 as stated fails for an error that is not a ValueError: \<open>describe\<close> raises it and
  returns no dict.
\<close>

theorem describe_degraded_strategies_counterexample:
  "fetch_multicall ex_env_other_error
     [(ex_vault_contract, ''totalAssets''), (ex_vault_contract, ''activation'')] =
     Inl (OtherError ''ConnectionError'') \<and>
   describe ex_env_other_error ex_vault = Inl (OtherError ''ConnectionError'')"
  by (simp add: describe_def describe_try_def describe_views_def ex_other_error_calls)

subsection \<open>Only ValueError is caught\<close>

text \<open>
  C10. An exception raised inside the \<open>try\<close> of \<open>describe\<close>, by the multicall or by
  the assembly of the dict from its results, that \<open>except ValueError\<close> does not match is
  raised by \<open>describe\<close> to its caller. (The assembly can raise OverflowError, in the
  division of a view.)
\<close>

theorem describe_propagates_other_errors:
  assumes "decimals env (vault self) = Inr d"
    and "fetch_multicall env (map (\<lambda>view. (vault self, view)) (views self)) = Inl e \<or>
         (\<exists>results. fetch_multicall env (map (\<lambda>view. (vault self, view)) (views self)) = Inr results \<and>
            scale_views (10 ^ d) (AList.updates (views self) results []) = Inl e)"
    and "\<forall>m. e \<noteq> ValueError m"
  shows "describe env self = Inl e"
proof -
  from describe_views_raise [OF assms(2)]
  have "describe_views env self (10 ^ d) = Inl e" .
  with assms(3) have "describe_try env self (10 ^ d) = Inl e"
    by (cases e) (simp_all add: describe_try_def)
  with assms(1) show ?thesis by (simp add: describe_def)
qed

theorem describe_propagates_other_errors_witness:
  "describe ex_env_other_error ex_vault = Inl (OtherError ''ConnectionError'') \<and>
   describe ex_env_overflow ex_vault = Inl OverflowError"
proof -
  have a: "describe ex_env_other_error ex_vault = Inl (OtherError ''ConnectionError'')"
    using describe_propagates_other_errors [OF ex_other_error_calls(2),
        of "OtherError ''ConnectionError''"]
    by (simp add: ex_other_error_calls)
  have d: "decimals ex_env_overflow (vault ex_vault) = Inr 0"
    by (simp add: ex_env_overflow_def)
  have f: "fetch_multicall ex_env_overflow (map (\<lambda>view. (vault ex_vault, view)) (views ex_vault)) =
      Inr [2 ^ 1024, 1600000000]"
    by (simp add: ex_env_overflow_def)
  have s: "scale_views (10 ^ 0) (AList.updates (views ex_vault) [2 ^ 1024, 1600000000] []) =
      Inl OverflowError"
    using truediv_overflow by (simp add: ex_vault_def VAULT_VIEWS_SCALED_def)
  have b: "describe ex_env_overflow ex_vault = Inl OverflowError"
    using describe_propagates_other_errors [OF d, of OverflowError] f s by simp
  from a b show ?thesis by simp
qed

end
